theory Spec2Isabelle
  imports Complex_Main "HOL-Library.Multiset" "HOL-Library.Char_ord" "HOL-Library.List_Lexorder"
    "HOL-Library.Sublist"
begin

section \<open>Data model: cells, tables, errors\<close>

text \<open>
  A pandas DataFrame is a list of column names and a list of rows, a row holding one cell
  per column. A cell is missing (NaN, None, NaT), a number, a string or a timestamp.
  Numbers are rationals: the float arithmetic of the source is read as exact arithmetic,
  and every concrete table below uses values that floats represent exactly. A timestamp
  is the number of nanoseconds since 1970-01-01, as pandas stores it.
\<close>

datatype cell = Null | Num rat | Str string | Timestamp int

record table =
  columns :: "string list"
  rows :: "cell list list"

text \<open>The Python exceptions the modelled code can raise.\<close>

datatype error =
    KeyError | ValueError | TypeError | AttributeError | SpecificationError
  | ZeroDivisionError | FileNotFoundError | IntegrityError | OperationalError
  | OtherError string

text \<open>Position of a column name in the header, and the cell of a row under that name.\<close>

fun col_index :: "string \<Rightarrow> string list \<Rightarrow> nat" where
  "col_index c [] = 0"
| "col_index c (x # xs) = (if x = c then 0 else Suc (col_index c xs))"

definition value_of :: "string list \<Rightarrow> string \<Rightarrow> cell list \<Rightarrow> cell" where
  "value_of cols c r = r ! col_index c cols"

definition column_values :: "table \<Rightarrow> string \<Rightarrow> cell list" where
  "column_values df c = map (value_of (columns df) c) (rows df)"

text \<open>Every row has one cell per column.\<close>

definition well_formed :: "table \<Rightarrow> bool" where
  "well_formed df = list_all (\<lambda>r. length r = length (columns df)) (rows df)"

text \<open>
  The order pandas sorts by: numbers by value, strings by code point, timestamps by time,
  missing values last. Values of different kinds are ordered numbers, strings, timestamps;
  where pandas refuses to compare them the functions below raise before they sort.
\<close>

fun cell_rank :: "cell \<Rightarrow> nat" where
  "cell_rank (Num x) = 0"
| "cell_rank (Str s) = 1"
| "cell_rank (Timestamp t) = 2"
| "cell_rank Null = 3"

instantiation cell :: linorder
begin

fun less_eq_cell :: "cell \<Rightarrow> cell \<Rightarrow> bool" where
  "less_eq_cell (Num x) (Num y) = (x \<le> y)"
| "less_eq_cell (Str s) (Str t) = (s \<le> t)"
| "less_eq_cell (Timestamp a) (Timestamp b) = (a \<le> b)"
| "less_eq_cell a b = (cell_rank a \<le> cell_rank b)"

definition less_cell :: "cell \<Rightarrow> cell \<Rightarrow> bool" where
  "less_cell a b = (a \<le> b \<and> \<not> b \<le> a)"

instance
proof
  fix x y z :: cell
  show "(x < y) = (x \<le> y \<and> \<not> y \<le> x)" by (simp add: less_cell_def)
  show "x \<le> x" by (cases x) simp_all
  show "x \<le> y \<Longrightarrow> y \<le> z \<Longrightarrow> x \<le> z"
    by (cases x; cases y; cases z) simp_all
  show "x \<le> y \<Longrightarrow> y \<le> x \<Longrightarrow> x = y"
    by (cases x; cases y) simp_all
  show "x \<le> y \<or> y \<le> x"
    by (cases x; cases y) auto
qed

end

section \<open>Cube column names (olap/cubing.py, generate_column_names)\<close>

text \<open>
  A measure mapping is a Python dict from a measure column to either a list of
  aggregation function names or a single name. A dict keeps insertion order, so it is an
  association list here.
\<close>

datatype agg_spec = AggOne string | AggList "string list"

type_synonym measures = "(string \<times> agg_spec) list"

text \<open>\<^verbatim>\<open>name.rstrip('_')\<close>: every trailing underscore is removed.\<close>

definition rstrip_underscore :: "string \<Rightarrow> string" where
  "rstrip_underscore name = rev (dropWhile (\<lambda>c. c = CHR ''_'') (rev name))"

text \<open>The inner loop over a list of function names, appending one name per function.\<close>

fun append_funcs :: "string list \<Rightarrow> string \<Rightarrow> string list \<Rightarrow> string list" where
  "append_funcs column_names column [] = column_names"
| "append_funcs column_names column (func # rest) =
     append_funcs (column_names @ [column @ ''_'' @ func]) column rest"

text \<open>The outer loop over \<^verbatim>\<open>measures.items()\<close>, with the \<^verbatim>\<open>isinstance(agg_func, list)\<close> test.\<close>

fun append_measures :: "string list \<Rightarrow> measures \<Rightarrow> string list" where
  "append_measures column_names [] = column_names"
| "append_measures column_names ((column, AggList funcs) # rest) =
     append_measures (append_funcs column_names column funcs) rest"
| "append_measures column_names ((column, AggOne agg_func) # rest) =
     append_measures (column_names @ [column @ ''_'' @ agg_func]) rest"

definition generate_column_names :: "string list \<Rightarrow> measures \<Rightarrow> string list" where
  "generate_column_names dimensions meas =
     map rstrip_underscore (append_measures dimensions meas)"

text \<open>The names one measure contributes, and the number of them.\<close>

fun measure_names :: "string \<times> agg_spec \<Rightarrow> string list" where
  "measure_names (column, AggList funcs) = map (\<lambda>func. column @ ''_'' @ func) funcs"
| "measure_names (column, AggOne agg_func) = [column @ ''_'' @ agg_func]"


definition ends_with_underscore :: "string \<Rightarrow> bool" where
  "ends_with_underscore name = (name \<noteq> [] \<and> last name = CHR ''_'')"

section \<open>The cube (olap/cubing.py, create_olap_cube)\<close>

text \<open>
  The aggregation functions are pandas' own, looked up by name. The table of them is a
  parameter: a name pandas does not know maps to \<open>None\<close>, a known one to the function
  from the values of a group to the aggregate, which may raise.
\<close>

type_synonym agg_table = "string \<Rightarrow> (cell list \<Rightarrow> error + cell) option"

definition group_key :: "string list \<Rightarrow> string list \<Rightarrow> cell list \<Rightarrow> cell list" where
  "group_key cols dimensions r = map (\<lambda>d. value_of cols d r) dimensions"

text \<open>
  \<^verbatim>\<open>sales_df.groupby(dimensions)\<close>: pandas' defaults are \<^verbatim>\<open>dropna=True\<close> and
  \<^verbatim>\<open>sort=True\<close>, so a row with a missing value in a dimension column belongs to no
  group, and the groups come in the order of their keys. An empty dimension list and an
  unknown column raise.
\<close>

definition groupby :: "table \<Rightarrow> string list \<Rightarrow> error + (cell list \<times> cell list list) list" where
  "groupby sales_df dimensions =
     (if dimensions = [] then Inl ValueError
      else if \<not> set dimensions \<subseteq> set (columns sales_df) then Inl KeyError
      else
        let key = group_key (columns sales_df) dimensions;
            kept = filter (\<lambda>r. Null \<notin> set (key r)) (rows sales_df);
            keys = sort (remdups (map key kept))
        in Inr (map (\<lambda>k. (k, filter (\<lambda>r. key r = k) kept)) keys))"

text \<open>The (measure, function) pairs of a measure mapping, in the mapping's order.\<close>

fun measure_pairs :: "string \<times> agg_spec \<Rightarrow> (string \<times> string) list" where
  "measure_pairs (column, AggList funcs) = map (Pair column) funcs"
| "measure_pairs (column, AggOne agg_func) = [(column, agg_func)]"

fun scalar_spec :: "string \<times> agg_spec \<Rightarrow> bool" where
  "scalar_spec (column, AggOne agg_func) = True"
| "scalar_spec (column, AggList funcs) = False"

text \<open>The aggregates of one group, one cell per (measure, function) pair.\<close>

fun agg_group :: "agg_table \<Rightarrow> string list \<Rightarrow> cell list list \<Rightarrow> (string \<times> string) list
    \<Rightarrow> error + cell list" where
  "agg_group aggf cols grp [] = Inr []"
| "agg_group aggf cols grp ((column, func) # rest) =
     (case aggf func of
        None \<Rightarrow> Inl AttributeError
      | Some f \<Rightarrow>
          (case f (map (value_of cols column) grp) of
             Inl e \<Rightarrow> Inl e
           | Inr v \<Rightarrow>
               (case agg_group aggf cols grp rest of
                  Inl e \<Rightarrow> Inl e
                | Inr vs \<Rightarrow> Inr (v # vs))))"

fun agg_groups :: "agg_table \<Rightarrow> string list \<Rightarrow> (cell list \<times> cell list list) list
    \<Rightarrow> (string \<times> string) list \<Rightarrow> error + cell list list" where
  "agg_groups aggf cols [] pairs = Inr []"
| "agg_groups aggf cols ((k, grp) # rest) pairs =
     (case agg_group aggf cols grp pairs of
        Inl e \<Rightarrow> Inl e
      | Inr vs \<Rightarrow>
          (case agg_groups aggf cols rest pairs of
             Inl e \<Rightarrow> Inl e
           | Inr out \<Rightarrow> Inr ((k @ vs) # out)))"

text \<open>
  \<^verbatim>\<open>grouped.agg(measures).reset_index()\<close>. pandas raises for a measure column the
  table does not have and for a function name it does not know, whatever the rows are.
  A measure may be a dimension, a function may be named twice, a function list may be
  empty: pandas accepts all of these. With at least one (measure, function) pair asked
  for, the result has the dimension columns first, then one column per pair, and one row
  per group. \<^verbatim>\<open>reset_index\<close> raises when it would insert a column name that is
  already there: a dimension named twice, or a dimension that is also a measure when
  every measure has a single function name (only then are the result's column names the
  bare measure names).

  What pandas returns when the mapping asks for no pair at all (an empty mapping, or
  nothing but empty function lists) is left open: it is a parameter, \<open>no_aggregates\<close>.
\<close>

type_synonym no_aggregates = "table \<Rightarrow> string list \<Rightarrow> measures \<Rightarrow> error + table"

definition agg_reset_index :: "agg_table \<Rightarrow> no_aggregates \<Rightarrow> table \<Rightarrow> string list
    \<Rightarrow> (cell list \<times> cell list list) list \<Rightarrow> measures \<Rightarrow> error + table" where
  "agg_reset_index aggf no_pairs sales_df dimensions grouped meas =
     (let pairs = concat (map measure_pairs meas) in
      if \<exists>m \<in> set meas. fst m \<notin> set (columns sales_df) then Inl KeyError
      else if \<exists>p \<in> set pairs. aggf (snd p) = None then Inl AttributeError
      else if pairs = [] then no_pairs sales_df dimensions meas
      else
        (case agg_groups aggf (columns sales_df) grouped pairs of
           Inl e \<Rightarrow> Inl e
         | Inr out \<Rightarrow>
             if \<not> distinct dimensions then Inl ValueError
             else if list_all scalar_spec meas \<and> (\<exists>m \<in> set meas. fst m \<in> set dimensions)
               then Inl ValueError
             else Inr \<lparr>columns = dimensions @ map fst pairs, rows = out\<rparr>))"

text \<open>
  \<^verbatim>\<open>create_olap_cube\<close>: the \<^verbatim>\<open>except\<close> clause logs and re-raises, so an error of any
  step is the error of the call. Assigning \<^verbatim>\<open>cube.columns\<close> raises when the number of
  names differs from the number of columns.
\<close>

definition create_olap_cube :: "agg_table \<Rightarrow> no_aggregates \<Rightarrow> table \<Rightarrow> string list \<Rightarrow> measures
    \<Rightarrow> error + table" where
  "create_olap_cube aggf no_pairs sales_df dimensions meas =
     (case groupby sales_df dimensions of
        Inl e \<Rightarrow> Inl e
      | Inr grouped \<Rightarrow>
          (case agg_reset_index aggf no_pairs sales_df dimensions grouped meas of
             Inl e \<Rightarrow> Inl e
           | Inr cube \<Rightarrow>
               let explict_columns = generate_column_names dimensions meas in
               if length explict_columns \<noteq> length (columns cube) then Inl ValueError
               else Inr (cube\<lparr>columns := explict_columns\<rparr>)))"

text \<open>
  An aggregation table for the examples: \<^verbatim>\<open>sum\<close> and \<^verbatim>\<open>count\<close> over
  numbers, skipping missing values as pandas does.
\<close>

fun num_values :: "cell list \<Rightarrow> error + rat list" where
  "num_values [] = Inr []"
| "num_values (Null # cs) = num_values cs"
| "num_values (Num x # cs) = (case num_values cs of Inl e \<Rightarrow> Inl e | Inr xs \<Rightarrow> Inr (x # xs))"
| "num_values (c # cs) = Inl TypeError"

definition agg_sum :: "cell list \<Rightarrow> error + cell" where
  "agg_sum cs = (case num_values cs of Inl e \<Rightarrow> Inl e | Inr xs \<Rightarrow> Inr (Num (sum_list xs)))"

definition agg_count :: "cell list \<Rightarrow> error + cell" where
  "agg_count cs = Inr (Num (of_nat (length (filter (\<lambda>c. c \<noteq> Null) cs))))"

definition example_aggs :: agg_table where
  "example_aggs name =
     (if name = ''sum'' then Some agg_sum
      else if name = ''count'' then Some agg_count
      else None)"

text \<open>
  For the examples, what pandas 2 returns for a mapping of empty function lists: no
  aggregate gives an empty frame, and its reset index is one column and no row.
\<close>

definition empty_frame :: no_aggregates where
  "empty_frame sales_df dimensions meas = Inr \<lparr>columns = [''index''], rows = []\<rparr>"

section \<open>pandas functions the cleaners call\<close>

text \<open>
  The cleaners work through pandas. Each pandas function they call is written out here
  on cells and lists of cells, as far as the cleaners rely on it.
\<close>

subsection \<open>Numeric coercion: \<^verbatim>\<open>pd.to_numeric(column, errors='coerce')\<close>\<close>

text \<open>
  A string is read as a number when, after surrounding white space is removed, it is a
  plain decimal numeral: an optional sign, digits, and an optional fraction part. Every
  other string, \<^verbatim>\<open>"?"\<close> among them, becomes missing. (pandas also reads exponent
  notation and the words for infinity; a CSV of amounts has neither, and no property
  below depends on which strings parse.)
\<close>

definition is_space :: "char \<Rightarrow> bool" where
  "is_space c = (c \<in> set [CHR '' '', CHR 0x09, CHR 0x0A, CHR 0x0B, CHR 0x0C, CHR 0x0D,
                            CHR 0x1C, CHR 0x1D, CHR 0x1E, CHR 0x1F])"

definition strip :: "string \<Rightarrow> string" where
  "strip s = rev (dropWhile is_space (rev (dropWhile is_space s)))"

definition digit_val :: "char \<Rightarrow> nat option" where
  "digit_val c =
     (if CHR ''0'' \<le> c \<and> c \<le> CHR ''9'' then Some (of_char c - 48) else None)"

fun digits_val :: "nat \<Rightarrow> string \<Rightarrow> nat option" where
  "digits_val acc [] = Some acc"
| "digits_val acc (c # cs) =
     (case digit_val c of None \<Rightarrow> None | Some d \<Rightarrow> digits_val (10 * acc + d) cs)"

definition parse_unsigned :: "string \<Rightarrow> rat option" where
  "parse_unsigned s =
     (let int_part = takeWhile (\<lambda>c. c \<noteq> CHR ''.'') s;
          frac_part = drop 1 (dropWhile (\<lambda>c. c \<noteq> CHR ''.'') s)
      in if int_part = [] \<and> frac_part = [] then None
         else (case (digits_val 0 int_part, digits_val 0 frac_part) of
                 (Some a, Some b) \<Rightarrow> Some (of_nat a + of_nat b / 10 ^ length frac_part)
               | _ \<Rightarrow> None))"

definition parse_number :: "string \<Rightarrow> rat option" where
  "parse_number s =
     (case strip s of
        [] \<Rightarrow> None
      | c # cs \<Rightarrow>
          if c = CHR ''-'' then map_option uminus (parse_unsigned cs)
          else if c = CHR ''+'' then parse_unsigned cs
          else parse_unsigned (c # cs))"

fun to_numeric :: "cell \<Rightarrow> cell" where
  "to_numeric Null = Null"
| "to_numeric (Num x) = Num x"
| "to_numeric (Str s) = (case parse_number s of None \<Rightarrow> Null | Some x \<Rightarrow> Num x)"
| "to_numeric (Timestamp t) = Num (of_int t)"

subsection \<open>Date parsing: \<^verbatim>\<open>pd.to_datetime(column, errors='coerce')\<close>\<close>

text \<open>
  A string is read as a date when it is an ISO calendar date \<^verbatim>\<open>YYYY-MM-DD\<close> that
  exists and lies in the range of a 64-bit nanosecond timestamp; any other string becomes
  missing (NaT). A number is read as nanoseconds since the epoch. (pandas reads further
  date formats; no property below depends on which strings parse.)
\<close>

definition leap_year :: "nat \<Rightarrow> bool" where
  "leap_year y = (y mod 4 = 0 \<and> (y mod 100 \<noteq> 0 \<or> y mod 400 = 0))"

definition days_in_month :: "nat \<Rightarrow> nat \<Rightarrow> nat" where
  "days_in_month y m =
     (if m = 2 then (if leap_year y then 29 else 28)
      else if m \<in> set [4, 6, 9, 11] then 30 else 31)"

definition days_from_civil :: "nat \<Rightarrow> nat \<Rightarrow> nat \<Rightarrow> int" where
  "days_from_civil y m d =
     (let y' = int y - (if m \<le> 2 then 1 else 0);
          era = y' div 400;
          yoe = y' - era * 400;
          mp = (int m + 9) mod 12;
          doy = (153 * mp + 2) div 5 + int d - 1;
          doe = yoe * 365 + yoe div 4 - yoe div 100 + doy
      in era * 146097 + doe - 719468)"

definition in_timestamp_range :: "int \<Rightarrow> bool" where
  "in_timestamp_range ns = (- (2 ^ 63) < ns \<and> ns < 2 ^ 63)"

definition parse_date :: "string \<Rightarrow> int option" where
  "parse_date s =
     (if length s = 10 \<and> s ! 4 = CHR ''-'' \<and> s ! 7 = CHR ''-'' then
        (case (digits_val 0 (take 4 s), digits_val 0 (take 2 (drop 5 s)),
               digits_val 0 (drop 8 s)) of
           (Some y, Some m, Some d) \<Rightarrow>
             if 1 \<le> m \<and> m \<le> 12 \<and> 1 \<le> d \<and> d \<le> days_in_month y m
                \<and> in_timestamp_range (days_from_civil y m d * 86400000000000)
             then Some (days_from_civil y m d * 86400000000000)
             else None
         | _ \<Rightarrow> None)
      else None)"

fun to_datetime :: "cell \<Rightarrow> cell" where
  "to_datetime Null = Null"
| "to_datetime (Timestamp t) = Timestamp t"
| "to_datetime (Str s) = (case parse_date s of None \<Rightarrow> Null | Some t \<Rightarrow> Timestamp t)"
| "to_datetime (Num x) = (if in_timestamp_range \<lfloor>x\<rfloor> then Timestamp \<lfloor>x\<rfloor> else Null)"

subsection \<open>Column statistics: \<^verbatim>\<open>median\<close> and \<^verbatim>\<open>quantile\<close>\<close>

text \<open>
  Both skip missing values and are missing themselves (\<open>None\<close>) on a column without
  numbers. \<^verbatim>\<open>quantile\<close> interpolates linearly between the two nearest ranks, pandas'
  default.
\<close>

fun numbers_of :: "cell list \<Rightarrow> rat list" where
  "numbers_of [] = []"
| "numbers_of (Num x # cs) = x # numbers_of cs"
| "numbers_of (c # cs) = numbers_of cs"

definition median :: "cell list \<Rightarrow> rat option" where
  "median cs =
     (let xs = sort (numbers_of cs); n = length xs
      in if n = 0 then None
         else if odd n then Some (xs ! (n div 2))
         else Some ((xs ! (n div 2 - 1) + xs ! (n div 2)) / 2))"

definition quantile :: "rat \<Rightarrow> cell list \<Rightarrow> rat option" where
  "quantile q cs =
     (let xs = sort (numbers_of cs); n = length xs
      in if n = 0 then None
         else
           let pos = q * of_nat (n - 1);
               lo = nat \<lfloor>pos\<rfloor>;
               frac = pos - of_nat lo
           in if frac = 0 then Some (xs ! lo)
              else Some (xs ! lo + frac * (xs ! (lo + 1) - xs ! lo)))"

subsection \<open>Operations on tables\<close>

text \<open>\<^verbatim>\<open>df[c] = f(df[c])\<close>: one column rewritten cell by cell.\<close>

definition map_column :: "string \<Rightarrow> (cell \<Rightarrow> cell) \<Rightarrow> table \<Rightarrow> table" where
  "map_column c f df =
     df\<lparr>rows := map (\<lambda>r. r[col_index c (columns df) := f (value_of (columns df) c r)])
                    (rows df)\<rparr>"

text \<open>\<^verbatim>\<open>df[mask]\<close>: the rows that satisfy a condition, in their order.\<close>

definition filter_rows :: "(cell list \<Rightarrow> bool) \<Rightarrow> table \<Rightarrow> table" where
  "filter_rows keep df = df\<lparr>rows := filter keep (rows df)\<rparr>"

text \<open>The guard \<^verbatim>\<open>if c in df.columns:\<close> around a step.\<close>

definition when_column :: "string \<Rightarrow> (table \<Rightarrow> table) \<Rightarrow> table \<Rightarrow> table" where
  "when_column c step df = (if c \<in> set (columns df) then step df else df)"

definition fillna :: "cell \<Rightarrow> cell \<Rightarrow> cell" where
  "fillna v c = (if c = Null then v else c)"

text \<open>\<^verbatim>\<open>df.dropna(subset=cols)\<close>: the rows with no missing value in the given columns.\<close>

definition dropna :: "string list \<Rightarrow> table \<Rightarrow> table" where
  "dropna wanted df =
     filter_rows (\<lambda>r. \<forall>c \<in> set wanted. value_of (columns df) c r \<noteq> Null) df"

text \<open>
  \<^verbatim>\<open>drop_duplicates(keep='first')\<close>: a row is kept unless an earlier row has the same
  key; \<open>seen\<close> holds the keys met so far. Missing values count as equal to each other.
\<close>

fun dedup_first :: "('a \<Rightarrow> 'k) \<Rightarrow> 'k list \<Rightarrow> 'a list \<Rightarrow> 'a list" where
  "dedup_first key seen [] = []"
| "dedup_first key seen (r # rs) =
     (if key r \<in> set seen then dedup_first key seen rs
      else r # dedup_first key (key r # seen) rs)"

definition drop_duplicates_subset :: "string \<Rightarrow> table \<Rightarrow> error + table" where
  "drop_duplicates_subset c df =
     (if c \<notin> set (columns df) then Inl KeyError
      else Inr (df\<lparr>rows := dedup_first (value_of (columns df) c) [] (rows df)\<rparr>))"

text \<open>
  \<^verbatim>\<open>df.sort_values(c).reset_index(drop=True)\<close>: ascending, missing values last. pandas
  cannot order values of different kinds and raises. Rows with equal keys keep their
  order here; pandas' default sort does not promise it, and no property below depends on
  the order among equal keys.
\<close>

definition mixed_kinds :: "cell list \<Rightarrow> bool" where
  "mixed_kinds cs =
     (\<exists>a \<in> set cs. \<exists>b \<in> set cs. a \<noteq> Null \<and> b \<noteq> Null \<and> cell_rank a \<noteq> cell_rank b)"

definition sort_values :: "string \<Rightarrow> table \<Rightarrow> error + table" where
  "sort_values c df =
     (if mixed_kinds (column_values df c) then Inl TypeError
      else Inr (df\<lparr>rows := sort_key (value_of (columns df) c) (rows df)\<rparr>))"

text \<open>Comparison of a numeric column with a bound; a missing value compares false.\<close>

fun num_ge :: "rat \<Rightarrow> cell \<Rightarrow> bool" where
  "num_ge b (Num x) = (b \<le> x)"
| "num_ge b c = False"

fun num_le :: "rat \<Rightarrow> cell \<Rightarrow> bool" where
  "num_le b (Num x) = (x \<le> b)"
| "num_le b c = False"

text \<open>
  The outlier bounds both cleaners compute from a column:
  \<^verbatim>\<open>Q1 - 1.5 * IQR\<close> and \<^verbatim>\<open>Q3 + 1.5 * IQR\<close>; missing when the column has no number.
\<close>

definition iqr_bounds :: "cell list \<Rightarrow> (rat \<times> rat) option" where
  "iqr_bounds cs =
     (case (quantile (1 / 4) cs, quantile (3 / 4) cs) of
        (Some Q1, Some Q3) \<Rightarrow>
          let IQR = Q3 - Q1 in Some (Q1 - (3 / 2) * IQR, Q3 + (3 / 2) * IQR)
      | _ \<Rightarrow> None)"

section \<open>The DataScrubber methods the cleaners call (data_scrubber.py)\<close>

text \<open>
  Modelled from the spec: \<^verbatim>\<open>DataScrubber.remove_duplicate_records\<close> is not among the
  source files. The spec has the Sales entity deduplicated "on full-row equality",
  keeping the first occurrence.
\<close>

definition remove_duplicate_records :: "table \<Rightarrow> table" where
  "remove_duplicate_records df = df\<lparr>rows := dedup_first (\<lambda>r. r) [] (rows df)\<rparr>"

text \<open>
  Modelled from the spec: \<^verbatim>\<open>DataScrubber.format_column_strings_to_upper_and_trim\<close> is
  not among the source files. The spec has designated string columns "upper-case[d] and
  trim[med of] whitespace"; cells that are not strings are left as they are. Letters
  outside ASCII are not changed here.
\<close>

definition upper_char :: "char \<Rightarrow> char" where
  "upper_char c =
     (if CHR ''a'' \<le> c \<and> c \<le> CHR ''z'' then char_of (of_char c - (32::nat)) else c)"

fun upper_and_trim :: "cell \<Rightarrow> cell" where
  "upper_and_trim (Str s) = Str (strip (map upper_char s))"
| "upper_and_trim c = c"

definition format_column_strings_to_upper_and_trim :: "string \<Rightarrow> table \<Rightarrow> table" where
  "format_column_strings_to_upper_and_trim column df = map_column column upper_and_trim df"

text \<open>
  Modelled from the spec: \<^verbatim>\<open>DataScrubber.filter_column_outliers\<close> is not among the
  source files. The spec has the outlier filter "keep only rows with value in" the closed
  interval of the two bounds. A bound is missing (NaN) when the quartiles are; every
  comparison with it is false.
\<close>

definition within_bounds :: "rat option \<Rightarrow> rat option \<Rightarrow> cell \<Rightarrow> bool" where
  "within_bounds lower_bound upper_bound v =
     (case (lower_bound, upper_bound) of
        (Some lo, Some hi) \<Rightarrow> num_ge lo v \<and> num_le hi v
      | _ \<Rightarrow> False)"

definition filter_column_outliers :: "string \<Rightarrow> rat option \<Rightarrow> rat option \<Rightarrow> table \<Rightarrow> table" where
  "filter_column_outliers column lower_bound upper_bound df =
     filter_rows (\<lambda>r. within_bounds lower_bound upper_bound (value_of (columns df) column r)) df"

section \<open>The cleaners (data_prep.py)\<close>

text \<open>
  Each cleaner is the sequence of its steps. The columns never change; a step on a column
  the table does not have is skipped, as the \<^verbatim>\<open>if c in df_temp.columns\<close> guards do.
  The consistency report and the log lines read the table and change nothing, except the
  last log line, which divides by the number of input rows and so raises on an input
  without rows.
\<close>

definition existing :: "string list \<Rightarrow> table \<Rightarrow> string list" where
  "existing critical_columns df = filter (\<lambda>col. col \<in> set (columns df)) critical_columns"

definition fill_with :: "rat option \<Rightarrow> cell \<Rightarrow> cell" where
  "fill_with m c = (case m of None \<Rightarrow> c | Some x \<Rightarrow> fillna (Num x) c)"

definition sort_if_present :: "string \<Rightarrow> table \<Rightarrow> error + table" where
  "sort_if_present c df = (if c \<in> set (columns df) then sort_values c df else Inr df)"

subsection \<open>\<^verbatim>\<open>clean_sales_data\<close>\<close>

definition replace_free :: "cell \<Rightarrow> cell" where
  "replace_free c = (if c = Str ''free'' then Str ''0'' else c)"

text \<open>Step 2: numeric coercion of \<^verbatim>\<open>SaleAmount\<close> and \<^verbatim>\<open>Shipping\<close>.\<close>

definition sales_coerce :: "table \<Rightarrow> table" where
  "sales_coerce df =
     when_column ''Shipping'' (map_column ''Shipping'' (to_numeric \<circ> replace_free))
       (when_column ''SaleAmount'' (map_column ''SaleAmount'' to_numeric) df)"

text \<open>Step 3, the fills: \<^verbatim>\<open>CampaignID\<close> with 0, \<^verbatim>\<open>Shipping\<close> with its median.\<close>

definition sales_fill :: "table \<Rightarrow> table" where
  "sales_fill df =
     when_column ''Shipping''
       (\<lambda>d. map_column ''Shipping'' (fill_with (median (column_values d ''Shipping''))) d)
       (when_column ''CampaignID'' (map_column ''CampaignID'' (fillna (Num 0))) df)"

text \<open>Step 3, the drop of rows with a missing critical value.\<close>

definition sales_critical_columns :: "string list" where
  "sales_critical_columns =
     [''TransactionID'', ''SaleDate'', ''CustomerID'', ''ProductID'', ''StoreID'',
      ''SaleAmount'']"

definition sales_drop_critical :: "table \<Rightarrow> table" where
  "sales_drop_critical df = dropna (existing sales_critical_columns df) df"

text \<open>Step 4: the \<^verbatim>\<open>State\<close> column in upper case.\<close>

definition sales_format :: "table \<Rightarrow> table" where
  "sales_format df =
     when_column ''State'' (format_column_strings_to_upper_and_trim ''State'') df"

text \<open>Step 5, first half: negative \<^verbatim>\<open>SaleAmount\<close> and \<^verbatim>\<open>Shipping\<close> rows go.\<close>

definition sales_nonneg :: "table \<Rightarrow> table" where
  "sales_nonneg df =
     when_column ''Shipping''
       (\<lambda>d. filter_rows (\<lambda>r. num_ge 0 (value_of (columns d) ''Shipping'' r)) d)
       (when_column ''SaleAmount''
          (\<lambda>d. filter_rows (\<lambda>r. num_ge 0 (value_of (columns d) ''SaleAmount'' r)) d) df)"

text \<open>Step 5, second half: the IQR filter on \<^verbatim>\<open>SaleAmount\<close>.\<close>

definition sales_outliers :: "table \<Rightarrow> table" where
  "sales_outliers df =
     when_column ''SaleAmount''
       (\<lambda>d. let bounds = iqr_bounds (column_values d ''SaleAmount'');
                lower_bound = map_option fst bounds;
                upper_bound = map_option snd bounds
            in filter_column_outliers ''SaleAmount'' lower_bound upper_bound d) df"

text \<open>Step 6: \<^verbatim>\<open>SaleDate\<close> parsed.\<close>

definition sales_dates :: "table \<Rightarrow> table" where
  "sales_dates df = when_column ''SaleDate'' (map_column ''SaleDate'' to_datetime) df"

text \<open>The table as it stands when the quartiles are taken.\<close>

definition sales_before_outliers :: "table \<Rightarrow> table" where
  "sales_before_outliers df =
     sales_nonneg (sales_format (sales_drop_critical (sales_fill (sales_coerce
       (remove_duplicate_records df)))))"

definition clean_sales_data :: "table \<Rightarrow> error + table" where
  "clean_sales_data df =
     (case sort_if_present ''TransactionID''
             (sales_dates (sales_outliers (sales_before_outliers df))) of
        Inl e \<Rightarrow> Inl e
      | Inr df_temp \<Rightarrow>
          if length (rows df) = 0 then Inl ZeroDivisionError else Inr df_temp)"

subsection \<open>\<^verbatim>\<open>clean_customers_data\<close>\<close>

definition customers_format :: "table \<Rightarrow> table" where
  "customers_format df =
     when_column ''Region'' (format_column_strings_to_upper_and_trim ''Region'')
       (when_column ''Name'' (format_column_strings_to_upper_and_trim ''Name'') df)"

definition customers_critical_columns :: "string list" where
  "customers_critical_columns = [''CustomerID'', ''Name'']"

definition customers_missing :: "table \<Rightarrow> table" where
  "customers_missing df =
     when_column ''ShoppingFrequency'' (map_column ''ShoppingFrequency'' (fillna (Num 0)))
       (when_column ''NumberOfPurshases'' (map_column ''NumberOfPurshases'' (fillna (Num 0)))
          (when_column ''Region'' (map_column ''Region'' (fillna (Str ''UNKNOWN'')))
             (dropna (existing customers_critical_columns df) df)))"

definition customers_dates :: "table \<Rightarrow> table" where
  "customers_dates df = when_column ''JoinDate'' (map_column ''JoinDate'' to_datetime) df"

text \<open>
  Step 5: the IQR filter on \<^verbatim>\<open>NumberOfPurshases\<close>, lower bound clamped at 0. The
  column is not coerced first, so \<^verbatim>\<open>quantile\<close> raises on a column that holds
  anything but numbers. Python's \<^verbatim>\<open>max(0, nan)\<close> is 0.
\<close>

fun is_number :: "cell \<Rightarrow> bool" where
  "is_number (Num x) = True"
| "is_number c = False"

definition clamped_outliers :: "string \<Rightarrow> table \<Rightarrow> table" where
  "clamped_outliers c df =
     (let bounds = iqr_bounds (column_values df c);
          lower_bound = (case bounds of None \<Rightarrow> 0 | Some b \<Rightarrow> max 0 (fst b));
          upper_bound = map_option snd bounds
      in filter_rows (\<lambda>r. within_bounds (Some lower_bound) upper_bound
                             (value_of (columns df) c r)) df)"

definition customers_outliers :: "table \<Rightarrow> error + table" where
  "customers_outliers df =
     (if ''NumberOfPurshases'' \<notin> set (columns df) then Inr df
      else if \<not> list_all is_number (column_values df ''NumberOfPurshases'') then Inl TypeError
      else Inr (clamped_outliers ''NumberOfPurshases'' df))"

definition clean_customers_data :: "table \<Rightarrow> error + table" where
  "clean_customers_data df =
     (case drop_duplicates_subset ''CustomerID'' df of
        Inl e \<Rightarrow> Inl e
      | Inr deduped \<Rightarrow>
          (case customers_outliers (customers_dates (customers_missing
                  (customers_format deduped))) of
             Inl e \<Rightarrow> Inl e
           | Inr filtered \<Rightarrow>
               (case sort_if_present ''CustomerID'' filtered of
                  Inl e \<Rightarrow> Inl e
                | Inr df_temp \<Rightarrow>
                    if length (rows df) = 0 then Inl ZeroDivisionError else Inr df_temp)))"

subsection \<open>\<^verbatim>\<open>clean_products_data\<close>\<close>

definition products_format :: "table \<Rightarrow> table" where
  "products_format df =
     when_column ''Category'' (format_column_strings_to_upper_and_trim ''Category'')
       (when_column ''ProductName'' (format_column_strings_to_upper_and_trim ''ProductName'') df)"

definition products_critical_columns :: "string list" where
  "products_critical_columns = [''ProductID'', ''ProductName'']"

definition products_missing :: "table \<Rightarrow> table" where
  "products_missing df =
     when_column ''Price''
       (\<lambda>d. let coerced = map_column ''Price'' to_numeric d;
                median_price = median (column_values coerced ''Price'')
            in map_column ''Price'' (fill_with median_price) coerced)
       (when_column ''Category'' (map_column ''Category'' (fillna (Str ''UNCATEGORIZED'')))
          (dropna (existing products_critical_columns df) df))"

definition products_outliers :: "table \<Rightarrow> table" where
  "products_outliers df =
     when_column ''Price''
       (\<lambda>d. clamped_outliers ''Price''
              (filter_rows (\<lambda>r. num_ge 0 (value_of (columns d) ''Price'' r)) d)) df"

definition clean_products_data :: "table \<Rightarrow> error + table" where
  "clean_products_data df =
     (case drop_duplicates_subset ''ProductID'' df of
        Inl e \<Rightarrow> Inl e
      | Inr deduped \<Rightarrow>
          (case sort_if_present ''ProductID''
                  (products_outliers (products_missing (products_format deduped))) of
             Inl e \<Rightarrow> Inl e
           | Inr df_temp \<Rightarrow>
               if length (rows df) = 0 then Inl ZeroDivisionError else Inr df_temp))"

section \<open>The cleaning entry point (data_prep.py, main)\<close>


datatype log_line = Processed string | Skipping string | ErrorProcessing string error

record prep_state =
  prepared :: "string \<Rightarrow> table option"
  log_lines :: "log_line list"



definition save_csv_file :: "table \<Rightarrow> string \<Rightarrow> prep_state \<Rightarrow> prep_state" where
  "save_csv_file df file_name st = st\<lparr>prepared := (prepared st)(file_name \<mapsto> df)\<rparr>"

definition logger :: "log_line \<Rightarrow> prep_state \<Rightarrow> prep_state" where
  "logger line st = st\<lparr>log_lines := log_lines st @ [line]\<rparr>"






section \<open>Properties of the column names\<close>

lemma append_funcs_eq:
  "append_funcs names column funcs = names @ map (\<lambda>func. column @ ''_'' @ func) funcs"
  by (induction funcs arbitrary: names) simp_all

lemma append_measures_eq:
  "append_measures names ms = names @ concat (map measure_names ms)"
proof (induction names ms rule: append_measures.induct)
  case (1 column_names)
  show ?case by simp
next
  case (2 column_names column funcs rest)
  then show ?case by (simp add: append_funcs_eq)
next
  case (3 column_names column agg_func rest)
  then show ?case by simp
qed


lemma rstrip_underscore_no_trailing: "\<not> ends_with_underscore (rstrip_underscore name)"
proof -
  let ?d = "dropWhile (\<lambda>c. c = CHR ''_'') (rev name)"
  show ?thesis
  proof (cases ?d)
    case Nil
    then show ?thesis by (simp add: ends_with_underscore_def rstrip_underscore_def)
  next
    case (Cons c cs)
    then have "c \<noteq> CHR ''_''"
      using hd_dropWhile [of "\<lambda>c. c = CHR ''_''" "rev name"] by auto
    with Cons show ?thesis
      by (simp add: ends_with_underscore_def rstrip_underscore_def)
  qed
qed

lemma rstrip_underscore_id:
  "\<not> ends_with_underscore name \<Longrightarrow> rstrip_underscore name = name"
proof (cases "rev name")
  case Nil
  then show ?thesis by (simp add: rstrip_underscore_def)
next
  case (Cons c cs)
  assume "\<not> ends_with_underscore name"
  with Cons have "c \<noteq> CHR ''_''"
    by (metis ends_with_underscore_def last_rev list.sel(1) rev_is_Nil_conv rev_rev_ident list.distinct(1))
  with Cons have "rev (dropWhile (\<lambda>c. c = CHR ''_'') (rev name)) = rev (rev name)" by simp
  then show ?thesis by (simp add: rstrip_underscore_def)
qed

text \<open>
  Claim C7. The generated names are a function of the dimension list and the measure
  mapping alone: the dimension names in their order, then one name
  \<^verbatim>\<open>{measure}_{function}\<close> per (measure, function) pair in the mapping's order, every
  name (dimension names too) with its trailing underscores removed. No generated name
  ends with an underscore, and a dimension name that has none at its end is kept as it is.
\<close>

theorem generate_column_names_layout:
  "generate_column_names dimensions meas =
     map rstrip_underscore dimensions @
     map rstrip_underscore (concat (map measure_names meas))
   \<and> (\<forall>name \<in> set (generate_column_names dimensions meas). \<not> ends_with_underscore name)
   \<and> (\<forall>i < length dimensions. \<not> ends_with_underscore (dimensions ! i) \<longrightarrow>
        generate_column_names dimensions meas ! i = dimensions ! i)"
proof (intro conjI)
  show eq: "generate_column_names dimensions meas =
     map rstrip_underscore dimensions @
     map rstrip_underscore (concat (map measure_names meas))"
    by (simp add: generate_column_names_def append_measures_eq)
  show "\<forall>name \<in> set (generate_column_names dimensions meas). \<not> ends_with_underscore name"
    by (auto simp: generate_column_names_def rstrip_underscore_no_trailing)
  show "\<forall>i < length dimensions. \<not> ends_with_underscore (dimensions ! i) \<longrightarrow>
        generate_column_names dimensions meas ! i = dimensions ! i"
    by (simp add: eq nth_append rstrip_underscore_id)
qed

theorem generate_column_names_layout_witness:
  "generate_column_names [''product_id'', ''region_'']
      [(''sale_amount'', AggList [''sum'', '''']), (''qty'', AggOne ''mean'')]
     = [''product_id'', ''region'', ''sale_amount_sum'', ''sale_amount'', ''qty_mean'']
   \<and> \<not> ends_with_underscore ''sale_amount''
   \<and> (0::nat) < length [''product_id'', ''region_'']
   \<and> \<not> ends_with_underscore ([''product_id'', ''region_''] ! 0)
   \<and> generate_column_names [''product_id'', ''region_'']
      [(''sale_amount'', AggList [''sum'', '''']), (''qty'', AggOne ''mean'')] ! 0 = ''product_id''"
  using generate_column_names_layout [of "[''product_id'', ''region_'']"
      "[(''sale_amount'', AggList [''sum'', '''']), (''qty'', AggOne ''mean'')]"]
  by (simp add: rstrip_underscore_def ends_with_underscore_def)

section \<open>Properties of the cube\<close>

















text \<open>
  A measure that is also the dimension, a function named twice: the cube has its rows
  and columns all the same.
\<close>

lemma cube_measure_is_dimension_example:
  "create_olap_cube example_aggs empty_frame
      \<lparr>columns = [''product_id'', ''sale_amount''],
       rows = [[Num 1, Num 10], [Num 1, Num 20], [Num 2, Num 5]]\<rparr>
      [''product_id''] [(''product_id'', AggList [''count'']), (''sale_amount'', AggList [''sum'', ''sum''])]
    = Inr \<lparr>columns = [''product_id'', ''product_id_count'', ''sale_amount_sum'', ''sale_amount_sum''],
           rows = [[Num 1, Num 2, Num 30, Num 30], [Num 2, Num 1, Num 5, Num 5]]\<rparr>"
  by (simp add: create_olap_cube_def groupby_def agg_reset_index_def group_key_def
        value_of_def generate_column_names_def rstrip_underscore_def example_aggs_def
        agg_sum_def agg_count_def less_cell_def)

section \<open>Properties of the cleaners\<close>

subsection \<open>Column positions\<close>

lemma col_index_less: "c \<in> set cols \<Longrightarrow> col_index c cols < length cols"
  by (induction cols) auto

lemma col_index_nth: "c \<in> set cols \<Longrightarrow> cols ! col_index c cols = c"
  by (induction cols) auto

lemma col_index_absent: "c \<notin> set cols \<Longrightarrow> col_index c cols = length cols"
  by (induction cols) auto

lemma col_index_neq:
  assumes "c \<in> set cols" and "c' \<noteq> c"
  shows "col_index c' cols \<noteq> col_index c cols"
proof (cases "c' \<in> set cols")
  case True
  then show ?thesis using assms col_index_nth by metis
next
  case False
  then show ?thesis using assms(1) col_index_absent col_index_less by (metis less_irrefl)
qed

lemma value_of_update_other:
  "c \<in> set cols \<Longrightarrow> c' \<noteq> c \<Longrightarrow> value_of cols c (r[col_index c' cols := v]) = value_of cols c r"
  by (simp add: value_of_def col_index_neq)

lemma value_of_update_same:
  "col_index c cols < length r \<Longrightarrow> value_of cols c (r[col_index c cols := v]) = v"
  by (simp add: value_of_def)

subsection \<open>Tables: columns, rows, row counts\<close>

lemma columns_map_column [simp]: "columns (map_column c f df) = columns df"
  by (simp add: map_column_def)

lemma columns_filter_rows [simp]: "columns (filter_rows keep df) = columns df"
  by (simp add: filter_rows_def)

lemma rows_filter_rows [simp]: "rows (filter_rows keep df) = filter keep (rows df)"
  by (simp add: filter_rows_def)

lemma length_rows_map_column [simp]: "length (rows (map_column c f df)) = length (rows df)"
  by (simp add: map_column_def)

lemma columns_dropna [simp]: "columns (dropna wanted df) = columns df"
  by (simp add: dropna_def)

lemma columns_when_column:
  "(\<And>d. columns (step d) = columns d) \<Longrightarrow> columns (when_column c step df) = columns df"
  by (simp add: when_column_def)

lemma columns_format [simp]:
  "columns (format_column_strings_to_upper_and_trim c df) = columns df"
  by (simp add: format_column_strings_to_upper_and_trim_def)

lemma columns_filter_column_outliers [simp]:
  "columns (filter_column_outliers c lo hi df) = columns df"
  by (simp add: filter_column_outliers_def)

lemma columns_remove_duplicate_records [simp]:
  "columns (remove_duplicate_records df) = columns df"
  by (simp add: remove_duplicate_records_def)

lemma columns_clamped_outliers [simp]: "columns (clamped_outliers c df) = columns df"
  by (simp add: clamped_outliers_def Let_def)

lemma columns_sales_coerce [simp]: "columns (sales_coerce df) = columns df"
  by (simp add: sales_coerce_def when_column_def)

lemma columns_sales_fill [simp]: "columns (sales_fill df) = columns df"
  by (simp add: sales_fill_def when_column_def)

lemma columns_sales_drop_critical [simp]: "columns (sales_drop_critical df) = columns df"
  by (simp add: sales_drop_critical_def)

lemma columns_sales_format [simp]: "columns (sales_format df) = columns df"
  by (simp add: sales_format_def when_column_def)

lemma columns_sales_nonneg [simp]: "columns (sales_nonneg df) = columns df"
  by (simp add: sales_nonneg_def when_column_def)

lemma columns_sales_outliers [simp]: "columns (sales_outliers df) = columns df"
  by (simp add: sales_outliers_def when_column_def Let_def)

lemma columns_sales_dates [simp]: "columns (sales_dates df) = columns df"
  by (simp add: sales_dates_def when_column_def)

lemma columns_sales_before_outliers [simp]: "columns (sales_before_outliers df) = columns df"
  by (simp add: sales_before_outliers_def)

lemma sort_values_columns: "sort_values c df = Inr out \<Longrightarrow> columns out = columns df"
  by (auto simp: sort_values_def split: if_splits)

lemma sort_values_rows:
  "sort_values c df = Inr out \<Longrightarrow> rows out = sort_key (value_of (columns df) c) (rows df)"
  by (auto simp: sort_values_def split: if_splits)

lemma sort_if_present_columns: "sort_if_present c df = Inr out \<Longrightarrow> columns out = columns df"
  by (auto simp: sort_if_present_def sort_values_columns split: if_splits)

lemma sort_if_present_set_rows: "sort_if_present c df = Inr out \<Longrightarrow> set (rows out) = set (rows df)"
  by (auto simp: sort_if_present_def sort_values_def split: if_splits)

lemma sort_if_present_length: "sort_if_present c df = Inr out \<Longrightarrow> length (rows out) = length (rows df)"
  by (auto simp: sort_if_present_def sort_values_def split: if_splits)

lemma sort_if_present_mset: "sort_if_present c df = Inr out \<Longrightarrow> mset (rows out) = mset (rows df)"
  by (auto simp: sort_if_present_def sort_values_def split: if_splits)

lemma sort_if_present_sorted:
  "sort_if_present c df = Inr out \<Longrightarrow> c \<in> set (columns df) \<Longrightarrow> sorted (column_values out c)"
  by (auto simp: sort_if_present_def sort_values_def column_values_def split: if_splits)

subsection \<open>A property of every cell of a column\<close>

definition col_pred :: "table \<Rightarrow> string \<Rightarrow> (cell \<Rightarrow> bool) \<Rightarrow> bool" where
  "col_pred df c P = (\<forall>r \<in> set (rows df). P (value_of (columns df) c r))"

lemma col_pred_filter_rows: "col_pred df c P \<Longrightarrow> col_pred (filter_rows keep df) c P"
  by (simp add: col_pred_def)

lemma col_pred_filter_rows_est:
  "(\<And>r. keep r \<Longrightarrow> P (value_of (columns df) c r)) \<Longrightarrow> col_pred (filter_rows keep df) c P"
  by (simp add: col_pred_def)

lemma col_pred_map_column_other:
  "c \<in> set (columns df) \<Longrightarrow> c' \<noteq> c \<Longrightarrow> col_pred (map_column c' f df) c P = col_pred df c P"
  by (simp add: col_pred_def map_column_def value_of_update_other)

lemma col_pred_same_rows:
  "set (rows out) \<subseteq> set (rows df) \<Longrightarrow> columns out = columns df \<Longrightarrow> col_pred df c P
   \<Longrightarrow> col_pred out c P"
  by (auto simp: col_pred_def)

lemma col_pred_sort_if_present:
  "sort_if_present k df = Inr out \<Longrightarrow> col_pred df c P \<Longrightarrow> col_pred out c P"
  using sort_if_present_set_rows sort_if_present_columns col_pred_same_rows
  by (metis subset_refl)

subsection \<open>Columns a step leaves alone\<close>

lemma column_values_map_column_other:
  "c \<in> set (columns df) \<Longrightarrow> c' \<noteq> c \<Longrightarrow> column_values (map_column c' f df) c = column_values df c"
  by (simp add: column_values_def map_column_def value_of_update_other)

lemma column_values_filter_rows:
  "column_values (filter_rows keep df) c = map (value_of (columns df) c) (filter keep (rows df))"
  by (simp add: column_values_def)

lemma subseq_filter_rows: "subseq (column_values (filter_rows keep df) c) (column_values df c)"
proof -
  have "subseq (map (value_of (columns df) c) (filter keep (rows df)))
          (map (value_of (columns df) c) (rows df))"
    by (rule subseq_map) (rule subseq_filter_left)
  then show ?thesis by (simp only: column_values_def columns_filter_rows rows_filter_rows)
qed

lemma subseq_dropna: "subseq (column_values (dropna wanted df) c) (column_values df c)"
  by (simp add: dropna_def subseq_filter_rows)

lemma subseq_clamped_outliers: "subseq (column_values (clamped_outliers k df) c) (column_values df c)"
  by (simp add: clamped_outliers_def Let_def subseq_filter_rows)

lemma subseq_filter_column_outliers:
  "subseq (column_values (filter_column_outliers k lo hi df) c) (column_values df c)"
  by (simp add: filter_column_outliers_def subseq_filter_rows)

lemma subseq_distinct: "subseq xs ys \<Longrightarrow> distinct ys \<Longrightarrow> distinct xs"
  by (metis subseqs_distinctD in_set_subseqs)

lemma subseq_set: "subseq xs ys \<Longrightarrow> set xs \<subseteq> set ys"
  by (induction rule: list_emb.induct) auto

lemma subseq_length: "subseq xs ys \<Longrightarrow> length xs \<le> length ys"
  by (rule list_emb_length)

lemma col_pred_iff: "col_pred df c P = (\<forall>v \<in> set (column_values df c). P v)"
  by (auto simp: col_pred_def column_values_def)

lemma length_column_values [simp]: "length (column_values df c) = length (rows df)"
  by (simp add: column_values_def)

subsection \<open>Deduplication keeps the first row of each key\<close>

lemma dedup_first_keys:
  "distinct (map key (dedup_first key seen rs)) \<and>
   set (map key (dedup_first key seen rs)) \<inter> set seen = {}"
  by (induction key seen rs rule: dedup_first.induct) auto

lemma dedup_first_subseq: "subseq (dedup_first key seen rs) rs"
  by (induction key seen rs rule: dedup_first.induct) auto

lemma drop_duplicates_subset_distinct:
  "drop_duplicates_subset c df = Inr out \<Longrightarrow>
     c \<in> set (columns df) \<and> columns out = columns df \<and> distinct (column_values out c)
     \<and> subseq (rows out) (rows df)"
  using dedup_first_keys [of "value_of (columns df) c" "[]" "rows df"]
  by (auto simp: drop_duplicates_subset_def column_values_def dedup_first_subseq split: if_splits)

subsection \<open>Sorting\<close>

lemma sort_if_present_column_mset:
  "sort_if_present k df = Inr out \<Longrightarrow> mset (column_values out c) = mset (column_values df c)"
proof -
  assume a: "sort_if_present k df = Inr out"
  have "mset (map (value_of (columns out) c) (rows out)) =
        image_mset (value_of (columns out) c) (mset (rows out))" by simp
  also have "\<dots> = image_mset (value_of (columns df) c) (mset (rows df))"
    using sort_if_present_mset [OF a] sort_if_present_columns [OF a] by simp
  finally show ?thesis by (simp add: column_values_def)
qed

lemma sort_if_present_distinct:
  "sort_if_present k df = Inr out \<Longrightarrow> distinct (column_values df c) \<Longrightarrow> distinct (column_values out c)"
  by (metis sort_if_present_column_mset mset_eq_imp_distinct_iff)

lemma sort_if_present_set:
  "sort_if_present k df = Inr out \<Longrightarrow> set (column_values out c) = set (column_values df c)"
  by (metis sort_if_present_column_mset mset_eq_setD)

subsection \<open>What each sales step does to a column\<close>

lemma subseq_when_filter:
  "(\<And>d. subseq (column_values (step d) c) (column_values d c)) \<Longrightarrow>
   subseq (column_values (when_column k step df) c) (column_values df c)"
  by (simp add: when_column_def)

lemma subseq_sales_nonneg: "subseq (column_values (sales_nonneg df) c) (column_values df c)"
proof -
  let ?a = "when_column ''SaleAmount''
          (\<lambda>d. filter_rows (\<lambda>r. num_ge 0 (value_of (columns d) ''SaleAmount'' r)) d) df"
  have 1: "subseq (column_values ?a c) (column_values df c)"
    by (rule subseq_when_filter) (rule subseq_filter_rows)
  have 2: "subseq (column_values (sales_nonneg df) c) (column_values ?a c)"
    unfolding sales_nonneg_def by (rule subseq_when_filter) (rule subseq_filter_rows)
  from 2 1 show ?thesis by (rule subseq_order.trans)
qed

lemma subseq_sales_outliers: "subseq (column_values (sales_outliers df) c) (column_values df c)"
  unfolding sales_outliers_def Let_def
  by (rule subseq_when_filter) (rule subseq_filter_column_outliers)

lemma subseq_sales_drop_critical:
  "subseq (column_values (sales_drop_critical df) c) (column_values df c)"
  by (simp add: sales_drop_critical_def subseq_dropna)

lemma column_values_sales_dates:
  "c \<in> set (columns df) \<Longrightarrow> c \<noteq> ''SaleDate'' \<Longrightarrow>
   column_values (sales_dates df) c = column_values df c"
  by (simp add: sales_dates_def when_column_def column_values_map_column_other)

lemma column_values_sales_format:
  "c \<in> set (columns df) \<Longrightarrow> c \<noteq> ''State'' \<Longrightarrow>
   column_values (sales_format df) c = column_values df c"
  by (simp add: sales_format_def when_column_def format_column_strings_to_upper_and_trim_def
      column_values_map_column_other)

text \<open>The result of \<^verbatim>\<open>clean_sales_data\<close>, taken apart.\<close>

lemma clean_sales_data_Inr:
  assumes "clean_sales_data df = Inr out"
  shows "sort_if_present ''TransactionID''
           (sales_dates (sales_outliers (sales_before_outliers df))) = Inr out"
    and "columns out = columns df" and "rows df \<noteq> []"
proof -
  show s: "sort_if_present ''TransactionID''
           (sales_dates (sales_outliers (sales_before_outliers df))) = Inr out"
    using assms by (auto simp: clean_sales_data_def split: sum.splits if_splits)
  show "columns out = columns df"
    using sort_if_present_columns [OF s] by simp
  show "rows df \<noteq> []"
    using assms by (auto simp: clean_sales_data_def split: sum.splits if_splits)
qed

lemma clean_sales_data_values:
  assumes "clean_sales_data df = Inr out" and "c \<in> set (columns df)" and "c \<noteq> ''SaleDate''"
  shows "set (column_values out c) \<subseteq> set (column_values (sales_outliers (sales_before_outliers df)) c)"
proof -
  let ?o = "sales_outliers (sales_before_outliers df)"
  have "set (column_values out c) = set (column_values (sales_dates ?o) c)"
    using sort_if_present_set [OF clean_sales_data_Inr(1) [OF assms(1)]] .
  also have "\<dots> = set (column_values ?o c)"
    using assms(2,3) by (simp add: column_values_sales_dates)
  finally show ?thesis by simp
qed

subsection \<open>Shipping\<close>

lemma sales_nonneg_shipping:
  "''Shipping'' \<in> set (columns df) \<Longrightarrow> col_pred (sales_nonneg df) ''Shipping'' (num_ge 0)"
  by (simp add: sales_nonneg_def when_column_def col_pred_filter_rows_est)

lemma num_ge_Num: "num_ge b v \<Longrightarrow> \<exists>x. v = Num x \<and> b \<le> x"
  by (cases v) simp_all

text \<open>After the filter every \<^verbatim>\<open>Shipping\<close> cell is a number and not negative.\<close>

lemma sales_shipping_numbers:
  assumes "clean_sales_data df = Inr out" and "''Shipping'' \<in> set (columns out)"
  shows "\<forall>r \<in> set (rows out). \<exists>x. value_of (columns out) ''Shipping'' r = Num x \<and> 0 \<le> x"
proof -
  have cols: "columns out = columns df" using clean_sales_data_Inr(2) [OF assms(1)] .
  then have sh: "''Shipping'' \<in> set (columns df)" using assms(2) by simp
  let ?b = "sales_before_outliers df"
  have "col_pred ?b ''Shipping'' (num_ge 0)"
    unfolding sales_before_outliers_def by (rule sales_nonneg_shipping) (simp add: sh)
  then have b: "\<forall>v \<in> set (column_values ?b ''Shipping''). num_ge 0 v"
    by (simp add: col_pred_iff)
  have "set (column_values out ''Shipping'') \<subseteq> set (column_values (sales_outliers ?b) ''Shipping'')"
    using clean_sales_data_values [OF assms(1) sh] by simp
  also have "\<dots> \<subseteq> set (column_values ?b ''Shipping'')"
    by (rule subseq_set) (rule subseq_sales_outliers)
  finally have "\<forall>v \<in> set (column_values out ''Shipping''). num_ge 0 v" using b by blast
  then show ?thesis
    by (auto simp: column_values_def dest: num_ge_Num)
qed

subsection \<open>SaleAmount and the outlier bounds\<close>

lemma within_bounds_Some:
  "within_bounds lo hi v \<Longrightarrow> \<exists>l h x. lo = Some l \<and> hi = Some h \<and> v = Num x \<and> l \<le> x \<and> x \<le> h"
  by (cases lo; cases hi; cases v) (simp_all add: within_bounds_def)

lemma iqr_bounds_Some:
  "iqr_bounds cs = Some b \<Longrightarrow>
     \<exists>Q1 Q3. quantile (1 / 4) cs = Some Q1 \<and> quantile (3 / 4) cs = Some Q3
       \<and> fst b = Q1 - (3 / 2) * (Q3 - Q1) \<and> snd b = Q3 + (3 / 2) * (Q3 - Q1)"
  by (auto simp: iqr_bounds_def Let_def split: option.splits)

lemma sales_outliers_amount:
  assumes "''SaleAmount'' \<in> set (columns df)"
  shows "col_pred (sales_outliers df) ''SaleAmount''
     (\<lambda>v. \<exists>Q1 Q3 x. quantile (1 / 4) (column_values df ''SaleAmount'') = Some Q1
        \<and> quantile (3 / 4) (column_values df ''SaleAmount'') = Some Q3
        \<and> v = Num x \<and> Q1 - (3 / 2) * (Q3 - Q1) \<le> x \<and> x \<le> Q3 + (3 / 2) * (Q3 - Q1))"
proof -
  let ?cs = "column_values df ''SaleAmount''"
  let ?lo = "map_option fst (iqr_bounds ?cs)" and ?hi = "map_option snd (iqr_bounds ?cs)"
  have "sales_outliers df = filter_rows
      (\<lambda>r. within_bounds ?lo ?hi (value_of (columns df) ''SaleAmount'' r)) df"
    using assms by (simp add: sales_outliers_def when_column_def Let_def filter_column_outliers_def)
  moreover have "\<exists>Q1 Q3 x. quantile (1 / 4) ?cs = Some Q1 \<and> quantile (3 / 4) ?cs = Some Q3
        \<and> v = Num x \<and> Q1 - (3 / 2) * (Q3 - Q1) \<le> x \<and> x \<le> Q3 + (3 / 2) * (Q3 - Q1)"
    if "within_bounds ?lo ?hi v" for v
  proof -
    from within_bounds_Some [OF that] obtain l h x where
      lh: "?lo = Some l" "?hi = Some h" and v: "v = Num x" "l \<le> x" "x \<le> h" by blast
    from lh obtain b where b: "iqr_bounds ?cs = Some b" "fst b = l" "snd b = h" by auto
    from iqr_bounds_Some [OF b(1)] b(2,3) v show ?thesis by auto
  qed
  ultimately show ?thesis by (simp add: col_pred_def)
qed

text \<open>
  Claim C5, as the code has it. Every \<^verbatim>\<open>SaleAmount\<close> of the cleaned Sale table is a
  number within \<^verbatim>\<open>[Q1 - 1.5 IQR, Q3 + 1.5 IQR]\<close>, where the quartiles are those of the
  table as it stands before the outlier filter (deduplicated, coerced, without rows
  missing a critical value or holding a negative amount or shipping cost), not those of
  the cleaned table itself.
\<close>

theorem sales_amount_within_bounds:
  assumes "clean_sales_data df = Inr out" and "''SaleAmount'' \<in> set (columns out)"
  shows "\<forall>r \<in> set (rows out). \<exists>Q1 Q3 x.
      quantile (1 / 4) (column_values (sales_before_outliers df) ''SaleAmount'') = Some Q1
    \<and> quantile (3 / 4) (column_values (sales_before_outliers df) ''SaleAmount'') = Some Q3
    \<and> value_of (columns out) ''SaleAmount'' r = Num x
    \<and> Q1 - (3 / 2) * (Q3 - Q1) \<le> x \<and> x \<le> Q3 + (3 / 2) * (Q3 - Q1)"
proof -
  have cols: "columns out = columns df" using clean_sales_data_Inr(2) [OF assms(1)] .
  then have sa: "''SaleAmount'' \<in> set (columns df)" using assms(2) by simp
  let ?b = "sales_before_outliers df"
  let ?P = "\<lambda>v. \<exists>Q1 Q3 x. quantile (1 / 4) (column_values ?b ''SaleAmount'') = Some Q1
        \<and> quantile (3 / 4) (column_values ?b ''SaleAmount'') = Some Q3
        \<and> v = Num x \<and> Q1 - (3 / 2) * (Q3 - Q1) \<le> x \<and> x \<le> Q3 + (3 / 2) * (Q3 - Q1)"
  have "col_pred (sales_outliers ?b) ''SaleAmount'' ?P"
    by (rule sales_outliers_amount) (simp add: sa)
  then have "\<forall>v \<in> set (column_values (sales_outliers ?b) ''SaleAmount''). ?P v"
    by (simp only: col_pred_iff)
  moreover have "set (column_values out ''SaleAmount'')
      \<subseteq> set (column_values (sales_outliers ?b) ''SaleAmount'')"
    using clean_sales_data_values [OF assms(1) sa] by simp
  ultimately have "\<forall>v \<in> set (column_values out ''SaleAmount''). ?P v" by blast
  then show ?thesis
    by (simp add: column_values_def)
qed

theorem sales_amount_within_bounds_witness:
  "clean_sales_data
     \<lparr>columns = [''TransactionID'', ''SaleAmount''],
      rows = [[Num 1, Num 0], [Num 2, Num 0], [Num 3, Num 0], [Num 4, Num 1], [Num 5, Num 3]]\<rparr>
   = Inr \<lparr>columns = [''TransactionID'', ''SaleAmount''],
          rows = [[Num 1, Num 0], [Num 2, Num 0], [Num 3, Num 0], [Num 4, Num 1]]\<rparr>
   \<and> ''SaleAmount'' \<in> set [''TransactionID'', ''SaleAmount'']
   \<and> (\<exists>Q1 Q3 x.
        quantile (1 / 4) (column_values (sales_before_outliers
          \<lparr>columns = [''TransactionID'', ''SaleAmount''],
           rows = [[Num 1, Num 0], [Num 2, Num 0], [Num 3, Num 0], [Num 4, Num 1],
                   [Num 5, Num 3]]\<rparr>) ''SaleAmount'') = Some Q1
      \<and> quantile (3 / 4) (column_values (sales_before_outliers
          \<lparr>columns = [''TransactionID'', ''SaleAmount''],
           rows = [[Num 1, Num 0], [Num 2, Num 0], [Num 3, Num 0], [Num 4, Num 1],
                   [Num 5, Num 3]]\<rparr>) ''SaleAmount'') = Some Q3
      \<and> value_of [''TransactionID'', ''SaleAmount''] ''SaleAmount'' [Num 4, Num 1] = Num x
      \<and> Q1 - (3 / 2) * (Q3 - Q1) \<le> x \<and> x \<le> Q3 + (3 / 2) * (Q3 - Q1))"
proof -
  have ev: "clean_sales_data
     \<lparr>columns = [''TransactionID'', ''SaleAmount''],
      rows = [[Num 1, Num 0], [Num 2, Num 0], [Num 3, Num 0], [Num 4, Num 1], [Num 5, Num 3]]\<rparr>
   = Inr \<lparr>columns = [''TransactionID'', ''SaleAmount''],
          rows = [[Num 1, Num 0], [Num 2, Num 0], [Num 3, Num 0], [Num 4, Num 1]]\<rparr>"
    by code_simp
  from sales_amount_within_bounds [OF ev] ev show ?thesis by simp
qed

text \<open>
  Amounts 0, 0, 0, 1, 3: the filter removes 3, and the quartiles of what is left put 1
  outside their own bounds.
\<close>

theorem sales_amount_own_quartiles_counterexample:
  "clean_sales_data
     \<lparr>columns = [''TransactionID'', ''SaleAmount''],
      rows = [[Num 1, Num 0], [Num 2, Num 0], [Num 3, Num 0], [Num 4, Num 1], [Num 5, Num 3]]\<rparr>
   = Inr \<lparr>columns = [''TransactionID'', ''SaleAmount''],
          rows = [[Num 1, Num 0], [Num 2, Num 0], [Num 3, Num 0], [Num 4, Num 1]]\<rparr>
   \<and> iqr_bounds (column_values
         \<lparr>columns = [''TransactionID'', ''SaleAmount''],
          rows = [[Num 1, Num 0], [Num 2, Num 0], [Num 3, Num 0], [Num 4, Num 1]]\<rparr>
         ''SaleAmount'') = Some (- (3 / 8), 5 / 8)
   \<and> value_of [''TransactionID'', ''SaleAmount''] ''SaleAmount'' [Num 4, Num 1] = Num 1
   \<and> \<not> (1::rat) \<le> 5 / 8"
proof (intro conjI)
  show "clean_sales_data
     \<lparr>columns = [''TransactionID'', ''SaleAmount''],
      rows = [[Num 1, Num 0], [Num 2, Num 0], [Num 3, Num 0], [Num 4, Num 1], [Num 5, Num 3]]\<rparr>
   = Inr \<lparr>columns = [''TransactionID'', ''SaleAmount''],
          rows = [[Num 1, Num 0], [Num 2, Num 0], [Num 3, Num 0], [Num 4, Num 1]]\<rparr>"
    by code_simp
  show "iqr_bounds (column_values
         \<lparr>columns = [''TransactionID'', ''SaleAmount''],
          rows = [[Num 1, Num 0], [Num 2, Num 0], [Num 3, Num 0], [Num 4, Num 1]]\<rparr>
         ''SaleAmount'') = Some (- (3 / 8), 5 / 8)"
    by code_simp
  show "value_of [''TransactionID'', ''SaleAmount''] ''SaleAmount'' [Num 4, Num 1] = Num 1"
    by (simp add: value_of_def)
  show "\<not> (1::rat) \<le> 5 / 8" by simp
qed

subsection \<open>Critical columns\<close>

lemma existing_member:
  "c \<in> set critical_columns \<Longrightarrow> c \<in> set (columns df) \<Longrightarrow> c \<in> set (existing critical_columns df)"
  by (simp add: existing_def)

lemma dropna_not_null:
  "c \<in> set wanted \<Longrightarrow> Null \<notin> set (column_values (dropna wanted df) c)"
  by (auto simp: dropna_def column_values_def)

lemma column_values_when_map_other:
  "c \<in> set (columns df) \<Longrightarrow> k \<noteq> c \<Longrightarrow>
   column_values (when_column k (map_column k f) df) c = column_values df c"
  by (simp add: when_column_def column_values_map_column_other)

lemma columns_when_map [simp]: "columns (when_column k (map_column k f) df) = columns df"
  by (simp add: when_column_def)

lemma not_null_subseq: "subseq xs ys \<Longrightarrow> Null \<notin> set ys \<Longrightarrow> Null \<notin> set xs"
  using subseq_set by blast

subsection \<open>Sales: no missing value in a critical column other than the date\<close>

lemma sales_critical_not_null:
  assumes "clean_sales_data df = Inr out"
    and "c \<in> set sales_critical_columns" and "c \<noteq> ''SaleDate''" and "c \<in> set (columns df)"
  shows "Null \<notin> set (column_values out c)"
proof -
  let ?f = "sales_fill (sales_coerce (remove_duplicate_records df))"
  let ?d = "sales_drop_critical ?f"
  have c_state: "c \<noteq> ''State''"
    using assms(2) by (auto simp: sales_critical_columns_def)
  have "Null \<notin> set (column_values ?d c)"
    unfolding sales_drop_critical_def
    by (rule dropna_not_null) (simp add: existing_member assms(2,4))
  then have "Null \<notin> set (column_values (sales_format ?d) c)"
    using assms(4) c_state by (simp add: column_values_sales_format)
  then have "Null \<notin> set (column_values (sales_before_outliers df) c)"
    unfolding sales_before_outliers_def
    using subseq_sales_nonneg not_null_subseq by blast
  then have "Null \<notin> set (column_values (sales_outliers (sales_before_outliers df)) c)"
    using subseq_sales_outliers not_null_subseq by blast
  then show ?thesis
    using clean_sales_data_values [OF assms(1,4,3)] by blast
qed

subsection \<open>Customers\<close>

lemma columns_customers_format [simp]: "columns (customers_format df) = columns df"
  by (simp add: customers_format_def when_column_def)

lemma columns_customers_missing [simp]: "columns (customers_missing df) = columns df"
  by (simp add: customers_missing_def when_column_def)

lemma columns_customers_dates [simp]: "columns (customers_dates df) = columns df"
  by (simp add: customers_dates_def when_column_def)

lemma customers_outliers_columns:
  "customers_outliers df = Inr out \<Longrightarrow> columns out = columns df"
  by (auto simp: customers_outliers_def split: if_splits)

lemma customers_outliers_subseq:
  "customers_outliers df = Inr out \<Longrightarrow> subseq (column_values out c) (column_values df c)"
  by (auto simp: customers_outliers_def subseq_clamped_outliers split: if_splits)

lemma column_values_customers_format:
  assumes "c \<in> set (columns df)" and "c \<noteq> ''Name''" and "c \<noteq> ''Region''"
  shows "column_values (customers_format df) c = column_values df c"
  using assms unfolding customers_format_def format_column_strings_to_upper_and_trim_def
  by (simp add: column_values_when_map_other)

lemma column_values_customers_dates:
  "c \<in> set (columns df) \<Longrightarrow> c \<noteq> ''JoinDate'' \<Longrightarrow>
   column_values (customers_dates df) c = column_values df c"
  unfolding customers_dates_def by (simp add: column_values_when_map_other)

lemma column_values_customers_missing:
  assumes "c \<in> set (columns df)" and "c \<noteq> ''Region''" and "c \<noteq> ''NumberOfPurshases''"
    and "c \<noteq> ''ShoppingFrequency''"
  shows "column_values (customers_missing df) c =
         column_values (dropna (existing customers_critical_columns df) df) c"
  using assms unfolding customers_missing_def
  by (simp add: column_values_when_map_other)

text \<open>The result of \<^verbatim>\<open>clean_customers_data\<close>, taken apart.\<close>

lemma clean_customers_data_Inr:
  assumes "clean_customers_data df = Inr out"
  obtains deduped filtered where
    "drop_duplicates_subset ''CustomerID'' df = Inr deduped"
    "customers_outliers (customers_dates (customers_missing (customers_format deduped))) = Inr filtered"
    "sort_if_present ''CustomerID'' filtered = Inr out"
    "rows df \<noteq> []"
  using assms by (auto simp: clean_customers_data_def split: sum.splits if_splits)

lemma clean_customers_data_key:
  assumes "clean_customers_data df = Inr out"
  shows "distinct (column_values out ''CustomerID'') \<and> Null \<notin> set (column_values out ''CustomerID'')
         \<and> columns out = columns df \<and> ''CustomerID'' \<in> set (columns df)"
proof -
  from assms obtain deduped filtered where
    d: "drop_duplicates_subset ''CustomerID'' df = Inr deduped"
    and f: "customers_outliers (customers_dates (customers_missing (customers_format deduped))) = Inr filtered"
    and s: "sort_if_present ''CustomerID'' filtered = Inr out"
    by (rule clean_customers_data_Inr)
  let ?k = "''CustomerID''"
  from drop_duplicates_subset_distinct [OF d] have
    k: "?k \<in> set (columns df)" and cd: "columns deduped = columns df"
    and dist: "distinct (column_values deduped ?k)" by simp_all
  let ?fm = "customers_format deduped"
  let ?dn = "dropna (existing customers_critical_columns ?fm) ?fm"
  let ?ms = "customers_missing ?fm"
  have kd: "?k \<in> set (columns deduped)" using k by (simp only: cd)
  have kf: "?k \<in> set (columns ?fm)" using kd by simp
  have v1: "column_values ?fm ?k = column_values deduped ?k"
    using kd by (simp add: column_values_customers_format)
  have v2: "column_values ?ms ?k = column_values ?dn ?k"
    using kf by (simp add: column_values_customers_missing)
  have v3: "column_values (customers_dates ?ms) ?k = column_values ?ms ?k"
    using kf by (simp add: column_values_customers_dates)
  have sub: "subseq (column_values ?dn ?k) (column_values ?fm ?k)" by (rule subseq_dropna)
  have nn: "Null \<notin> set (column_values ?dn ?k)"
    by (rule dropna_not_null) (simp add: existing_def customers_critical_columns_def kd)
  have fsub: "subseq (column_values filtered ?k) (column_values (customers_dates ?ms) ?k)"
    using customers_outliers_subseq [OF f] .
  have "distinct (column_values ?dn ?k)"
    using sub dist v1 subseq_distinct by metis
  then have "distinct (column_values filtered ?k)"
    using fsub v2 v3 subseq_distinct by metis
  then have 1: "distinct (column_values out ?k)"
    using sort_if_present_distinct [OF s] by simp
  have "Null \<notin> set (column_values filtered ?k)"
    using fsub v2 v3 nn not_null_subseq by metis
  then have 2: "Null \<notin> set (column_values out ?k)"
    using sort_if_present_set [OF s] by simp
  have "columns filtered = columns df"
    using customers_outliers_columns [OF f] cd by simp
  then have 3: "columns out = columns df"
    using sort_if_present_columns [OF s] by simp
  show ?thesis using 1 2 3 k by simp
qed


subsection \<open>Products\<close>

lemma columns_products_format [simp]: "columns (products_format df) = columns df"
  by (simp add: products_format_def when_column_def)

lemma columns_products_missing [simp]: "columns (products_missing df) = columns df"
  by (simp add: products_missing_def when_column_def Let_def)

lemma columns_products_outliers [simp]: "columns (products_outliers df) = columns df"
  by (simp add: products_outliers_def when_column_def)

lemma column_values_products_format:
  assumes "c \<in> set (columns df)" and "c \<noteq> ''ProductName''" and "c \<noteq> ''Category''"
  shows "column_values (products_format df) c = column_values df c"
  using assms unfolding products_format_def format_column_strings_to_upper_and_trim_def
  by (simp add: column_values_when_map_other)

lemma column_values_products_missing:
  assumes "c \<in> set (columns df)" and "c \<noteq> ''Category''" and "c \<noteq> ''Price''"
  shows "column_values (products_missing df) c =
         column_values (dropna (existing products_critical_columns df) df) c"
proof -
  let ?dn = "dropna (existing products_critical_columns df) df"
  let ?cat = "when_column ''Category'' (map_column ''Category'' (fillna (Str ''UNCATEGORIZED''))) ?dn"
  have c1: "column_values ?cat c = column_values ?dn c"
    using assms(1,2) by (simp add: column_values_when_map_other)
  have c2: "c \<in> set (columns ?cat)" using assms(1) by simp
  have "column_values (products_missing df) c = column_values ?cat c"
    unfolding products_missing_def when_column_def Let_def
    using c2 assms(3) by (simp add: column_values_map_column_other)
  then show ?thesis using c1 by simp
qed

lemma subseq_products_outliers:
  "subseq (column_values (products_outliers df) c) (column_values df c)"
proof (cases "''Price'' \<in> set (columns df)")
  case True
  let ?f = "filter_rows (\<lambda>r. num_ge 0 (value_of (columns df) ''Price'' r)) df"
  have "subseq (column_values (clamped_outliers ''Price'' ?f) c) (column_values ?f c)"
    by (rule subseq_clamped_outliers)
  moreover have "subseq (column_values ?f c) (column_values df c)"
    by (rule subseq_filter_rows)
  ultimately have "subseq (column_values (clamped_outliers ''Price'' ?f) c) (column_values df c)"
    by (rule subseq_order.trans)
  then show ?thesis using True by (simp add: products_outliers_def when_column_def)
next
  case False
  then show ?thesis by (simp add: products_outliers_def when_column_def)
qed

lemma clean_products_data_Inr:
  assumes "clean_products_data df = Inr out"
  obtains deduped where
    "drop_duplicates_subset ''ProductID'' df = Inr deduped"
    "sort_if_present ''ProductID''
       (products_outliers (products_missing (products_format deduped))) = Inr out"
    "rows df \<noteq> []"
  using assms by (auto simp: clean_products_data_def split: sum.splits if_splits)

lemma clean_products_data_key:
  assumes "clean_products_data df = Inr out"
  shows "distinct (column_values out ''ProductID'') \<and> Null \<notin> set (column_values out ''ProductID'')
         \<and> columns out = columns df \<and> ''ProductID'' \<in> set (columns df)"
proof -
  from assms obtain deduped where
    d: "drop_duplicates_subset ''ProductID'' df = Inr deduped"
    and s: "sort_if_present ''ProductID''
       (products_outliers (products_missing (products_format deduped))) = Inr out"
    by (rule clean_products_data_Inr)
  let ?k = "''ProductID''"
  from drop_duplicates_subset_distinct [OF d] have
    k: "?k \<in> set (columns df)" and cd: "columns deduped = columns df"
    and dist: "distinct (column_values deduped ?k)" by simp_all
  let ?fm = "products_format deduped"
  let ?dn = "dropna (existing products_critical_columns ?fm) ?fm"
  let ?ms = "products_missing ?fm"
  have kd: "?k \<in> set (columns deduped)" using k by (simp only: cd)
  have kf: "?k \<in> set (columns ?fm)" using kd by simp
  have v1: "column_values ?fm ?k = column_values deduped ?k"
    using kd by (simp add: column_values_products_format)
  have v2: "column_values ?ms ?k = column_values ?dn ?k"
    using kf by (simp add: column_values_products_missing)
  have sub: "subseq (column_values ?dn ?k) (column_values ?fm ?k)" by (rule subseq_dropna)
  have nn: "Null \<notin> set (column_values ?dn ?k)"
    by (rule dropna_not_null) (simp add: existing_def products_critical_columns_def kd)
  have fsub: "subseq (column_values (products_outliers ?ms) ?k) (column_values ?ms ?k)"
    by (rule subseq_products_outliers)
  have "distinct (column_values ?dn ?k)"
    using sub dist v1 subseq_distinct by metis
  then have "distinct (column_values (products_outliers ?ms) ?k)"
    using fsub v2 subseq_distinct by metis
  then have 1: "distinct (column_values out ?k)"
    using sort_if_present_distinct [OF s] by simp
  have "Null \<notin> set (column_values (products_outliers ?ms) ?k)"
    using fsub v2 nn not_null_subseq by metis
  then have 2: "Null \<notin> set (column_values out ?k)"
    using sort_if_present_set [OF s] by simp
  have 3: "columns out = columns df"
    using sort_if_present_columns [OF s] cd by simp
  show ?thesis using 1 2 3 k by simp
qed

subsection \<open>Primary keys of the cleaned tables\<close>

text \<open>
  Claim C1, as the code has it. The cleaned Customer and Product tables hold no
  \<^verbatim>\<open>CustomerID\<close>, respectively \<^verbatim>\<open>ProductID\<close>, twice and none missing. The cleaned
  Sale table holds no missing \<^verbatim>\<open>TransactionID\<close>; its rows are deduplicated as whole
  rows, so a \<^verbatim>\<open>TransactionID\<close> may repeat.
\<close>

theorem cleaned_primary_keys:
  "(clean_customers_data customers = Inr cleaned_customers \<longrightarrow>
      distinct (column_values cleaned_customers ''CustomerID'')
      \<and> Null \<notin> set (column_values cleaned_customers ''CustomerID''))
   \<and> (clean_products_data products = Inr cleaned_products \<longrightarrow>
      distinct (column_values cleaned_products ''ProductID'')
      \<and> Null \<notin> set (column_values cleaned_products ''ProductID''))
   \<and> (clean_sales_data sales = Inr cleaned_sales \<and> ''TransactionID'' \<in> set (columns cleaned_sales)
      \<longrightarrow> Null \<notin> set (column_values cleaned_sales ''TransactionID''))"
proof (intro conjI impI)
  assume "clean_customers_data customers = Inr cleaned_customers"
  from clean_customers_data_key [OF this]
  show "distinct (column_values cleaned_customers ''CustomerID'')"
    and "Null \<notin> set (column_values cleaned_customers ''CustomerID'')" by simp_all
next
  assume "clean_products_data products = Inr cleaned_products"
  from clean_products_data_key [OF this]
  show "distinct (column_values cleaned_products ''ProductID'')"
    and "Null \<notin> set (column_values cleaned_products ''ProductID'')" by simp_all
next
  assume a: "clean_sales_data sales = Inr cleaned_sales \<and> ''TransactionID'' \<in> set (columns cleaned_sales)"
  then have ev: "clean_sales_data sales = Inr cleaned_sales"
    and t: "''TransactionID'' \<in> set (columns cleaned_sales)" by simp_all
  have "columns cleaned_sales = columns sales" using ev by (rule clean_sales_data_Inr(2))
  then have t': "''TransactionID'' \<in> set (columns sales)" using t by simp
  have crit: "''TransactionID'' \<in> set sales_critical_columns"
    by (simp add: sales_critical_columns_def)
  have ne: "''TransactionID'' \<noteq> ''SaleDate''" by simp
  show "Null \<notin> set (column_values cleaned_sales ''TransactionID'')"
    using ev crit ne t' by (rule sales_critical_not_null)
qed

theorem cleaned_primary_keys_witness:
  "clean_customers_data
     \<lparr>columns = [''CustomerID'', ''Name'', ''Region''],
      rows = [[Num 2, Str ''bob'', Null], [Num 1, Str ''al '', Str ''east''],
              [Num 1, Str ''dup'', Str ''west''], [Null, Str ''nul'', Str ''east'']]\<rparr>
   = Inr \<lparr>columns = [''CustomerID'', ''Name'', ''Region''],
          rows = [[Num 1, Str ''AL'', Str ''EAST''], [Num 2, Str ''BOB'', Str ''UNKNOWN'']]\<rparr>
   \<and> clean_products_data
     \<lparr>columns = [''ProductID'', ''ProductName'', ''Price''],
      rows = [[Num 7, Str ''pen'', Str ''1.5''], [Num 7, Str ''ink'', Str ''2''],
              [Num 3, Str ''cap'', Null]]\<rparr>
   = Inr \<lparr>columns = [''ProductID'', ''ProductName'', ''Price''],
          rows = [[Num 3, Str ''CAP'', Num (3 / 2)], [Num 7, Str ''PEN'', Num (3 / 2)]]\<rparr>
   \<and> clean_sales_data
     \<lparr>columns = [''TransactionID'', ''SaleAmount''],
      rows = [[Null, Num 5], [Num 2, Num 6], [Num 1, Num 5]]\<rparr>
   = Inr \<lparr>columns = [''TransactionID'', ''SaleAmount''],
          rows = [[Num 1, Num 5], [Num 2, Num 6]]\<rparr>
   \<and> distinct [Num 1, Num 2 :: cell] \<and> Null \<notin> set [Num 1, Num 2]
   \<and> distinct [Num 3, Num 7 :: cell] \<and> Null \<notin> set [Num 3, Num 7]"
proof -
  have c: "clean_customers_data
     \<lparr>columns = [''CustomerID'', ''Name'', ''Region''],
      rows = [[Num 2, Str ''bob'', Null], [Num 1, Str ''al '', Str ''east''],
              [Num 1, Str ''dup'', Str ''west''], [Null, Str ''nul'', Str ''east'']]\<rparr>
   = Inr \<lparr>columns = [''CustomerID'', ''Name'', ''Region''],
          rows = [[Num 1, Str ''AL'', Str ''EAST''], [Num 2, Str ''BOB'', Str ''UNKNOWN'']]\<rparr>"
    by code_simp
  have p: "clean_products_data
     \<lparr>columns = [''ProductID'', ''ProductName'', ''Price''],
      rows = [[Num 7, Str ''pen'', Str ''1.5''], [Num 7, Str ''ink'', Str ''2''],
              [Num 3, Str ''cap'', Null]]\<rparr>
   = Inr \<lparr>columns = [''ProductID'', ''ProductName'', ''Price''],
          rows = [[Num 3, Str ''CAP'', Num (3 / 2)], [Num 7, Str ''PEN'', Num (3 / 2)]]\<rparr>"
    by code_simp
  have s: "clean_sales_data
     \<lparr>columns = [''TransactionID'', ''SaleAmount''],
      rows = [[Null, Num 5], [Num 2, Num 6], [Num 1, Num 5]]\<rparr>
   = Inr \<lparr>columns = [''TransactionID'', ''SaleAmount''],
          rows = [[Num 1, Num 5], [Num 2, Num 6]]\<rparr>"
    by code_simp
  from cleaned_primary_keys [of
      "\<lparr>columns = [''CustomerID'', ''Name'', ''Region''],
      rows = [[Num 2, Str ''bob'', Null], [Num 1, Str ''al '', Str ''east''],
              [Num 1, Str ''dup'', Str ''west''], [Null, Str ''nul'', Str ''east'']]\<rparr>"
      "\<lparr>columns = [''CustomerID'', ''Name'', ''Region''],
          rows = [[Num 1, Str ''AL'', Str ''EAST''], [Num 2, Str ''BOB'', Str ''UNKNOWN'']]\<rparr>"
      "\<lparr>columns = [''ProductID'', ''ProductName'', ''Price''],
      rows = [[Num 7, Str ''pen'', Str ''1.5''], [Num 7, Str ''ink'', Str ''2''],
              [Num 3, Str ''cap'', Null]]\<rparr>"
      "\<lparr>columns = [''ProductID'', ''ProductName'', ''Price''],
          rows = [[Num 3, Str ''CAP'', Num (3 / 2)], [Num 7, Str ''PEN'', Num (3 / 2)]]\<rparr>"
      "\<lparr>columns = [''TransactionID'', ''SaleAmount''],
      rows = [[Null, Num 5], [Num 2, Num 6], [Num 1, Num 5]]\<rparr>"
      "\<lparr>columns = [''TransactionID'', ''SaleAmount''],
          rows = [[Num 1, Num 5], [Num 2, Num 6]]\<rparr>"]
    c p s
  show ?thesis by (simp add: column_values_def value_of_def)
qed

text \<open>Two sales rows with one \<^verbatim>\<open>TransactionID\<close> and different amounts both stay.\<close>

theorem sales_repeated_transaction_counterexample:
  "clean_sales_data
     \<lparr>columns = [''TransactionID'', ''SaleAmount''],
      rows = [[Num 1, Num 5], [Num 1, Num 6]]\<rparr>
   = Inr \<lparr>columns = [''TransactionID'', ''SaleAmount''],
          rows = [[Num 1, Num 5], [Num 1, Num 6]]\<rparr>
   \<and> column_values \<lparr>columns = [''TransactionID'', ''SaleAmount''],
          rows = [[Num 1, Num 5], [Num 1, Num 6]]\<rparr> ''TransactionID'' = [Num 1, Num 1]
   \<and> \<not> distinct [Num 1, Num 1 :: cell]"
proof (intro conjI)
  show "clean_sales_data
     \<lparr>columns = [''TransactionID'', ''SaleAmount''],
      rows = [[Num 1, Num 5], [Num 1, Num 6]]\<rparr>
   = Inr \<lparr>columns = [''TransactionID'', ''SaleAmount''],
          rows = [[Num 1, Num 5], [Num 1, Num 6]]\<rparr>"
    by code_simp
  show "column_values \<lparr>columns = [''TransactionID'', ''SaleAmount''],
          rows = [[Num 1, Num 5], [Num 1, Num 6]]\<rparr> ''TransactionID'' = [Num 1, Num 1]"
    by (simp add: column_values_def value_of_def)
  show "\<not> distinct [Num 1, Num 1 :: cell]" by simp
qed

subsection \<open>Rows by position\<close>

lemma well_formed_row:
  "well_formed df \<Longrightarrow> r \<in> set (rows df) \<Longrightarrow> length r = length (columns df)"
  by (simp add: well_formed_def list_all_iff)

lemma well_formed_map_column: "well_formed df \<Longrightarrow> well_formed (map_column c f df)"
  by (simp add: well_formed_def map_column_def list_all_iff)

lemma well_formed_filter_rows: "well_formed df \<Longrightarrow> well_formed (filter_rows keep df)"
  by (simp add: well_formed_def list_all_iff)

lemma well_formed_when_column:
  "(\<And>d. well_formed d \<Longrightarrow> well_formed (step d)) \<Longrightarrow> well_formed df \<Longrightarrow>
   well_formed (when_column c step df)"
  by (simp add: when_column_def)

lemma dedup_first_set: "set (dedup_first (\<lambda>r. r) seen rs) = set rs - set seen"
  by (induction "\<lambda>r::'a. r" seen rs rule: dedup_first.induct) auto

lemma rows_remove_duplicate_records:
  "set (rows (remove_duplicate_records df)) = set (rows df)"
  by (simp add: remove_duplicate_records_def dedup_first_set)

lemma well_formed_remove_duplicate_records:
  "well_formed df \<Longrightarrow> well_formed (remove_duplicate_records df)"
  using rows_remove_duplicate_records [of df]
  by (simp add: well_formed_def list_all_iff)

lemma nth_map_column_same:
  assumes "well_formed df" and "c \<in> set (columns df)" and "i < length (rows df)"
  shows "value_of (columns df) c (rows (map_column c f df) ! i) =
         f (value_of (columns df) c (rows df ! i))"
proof -
  have "length (rows df ! i) = length (columns df)"
    using assms(1,3) by (simp add: well_formed_row)
  then have "col_index c (columns df) < length (rows df ! i)"
    using assms(2) by (simp add: col_index_less)
  then show ?thesis using assms(3) by (simp add: map_column_def value_of_update_same)
qed

lemma nth_map_column_other:
  assumes "c \<in> set (columns df)" and "c' \<noteq> c" and "i < length (rows df)"
  shows "value_of (columns df) c (rows (map_column c' f df) ! i) =
         value_of (columns df) c (rows df ! i)"
  using assms by (simp add: map_column_def value_of_update_other)

lemma nth_when_map_other:
  assumes "c \<in> set (columns df)" and "c' \<noteq> c" and "i < length (rows df)"
  shows "value_of (columns df) c (rows (when_column c' (map_column c' f) df) ! i) =
         value_of (columns df) c (rows df ! i)"
  using assms by (simp add: when_column_def nth_map_column_other)

lemma length_rows_when_map [simp]:
  "length (rows (when_column c (map_column c f) df)) = length (rows df)"
  by (simp add: when_column_def)

lemma length_rows_sales_coerce [simp]: "length (rows (sales_coerce df)) = length (rows df)"
  by (simp add: sales_coerce_def)

lemma length_rows_sales_fill [simp]: "length (rows (sales_fill df)) = length (rows df)"
  by (simp add: sales_fill_def when_column_def)

subsection \<open>The sentinel \<^verbatim>\<open>"?"\<close> through coercion, fill and drop\<close>

lemma parse_number_question_mark: "parse_number ''?'' = None"
  by (simp add: parse_number_def strip_def is_space_def parse_unsigned_def digit_val_def)

lemma to_numeric_question_mark: "to_numeric (Str ''?'') = Null"
  by (simp add: parse_number_question_mark)

lemma sales_coerce_amount:
  assumes "well_formed df" and "''SaleAmount'' \<in> set (columns df)" and "i < length (rows df)"
  shows "value_of (columns df) ''SaleAmount'' (rows (sales_coerce df) ! i) =
         to_numeric (value_of (columns df) ''SaleAmount'' (rows df ! i))"
proof -
  let ?a = "map_column ''SaleAmount'' to_numeric df"
  have a: "when_column ''SaleAmount'' (map_column ''SaleAmount'' to_numeric) df = ?a"
    using assms(2) by (simp add: when_column_def)
  have "value_of (columns ?a) ''SaleAmount''
          (rows (when_column ''Shipping'' (map_column ''Shipping'' (to_numeric \<circ> replace_free)) ?a) ! i)
        = value_of (columns ?a) ''SaleAmount'' (rows ?a ! i)"
    by (rule nth_when_map_other) (simp_all add: assms(2,3))
  then show ?thesis
    using nth_map_column_same [OF assms, of to_numeric] by (simp add: sales_coerce_def a)
qed

lemma sales_fill_amount:
  assumes "''SaleAmount'' \<in> set (columns df)" and "i < length (rows df)"
  shows "value_of (columns df) ''SaleAmount'' (rows (sales_fill df) ! i) =
         value_of (columns df) ''SaleAmount'' (rows df ! i)"
proof -
  let ?c = "when_column ''CampaignID'' (map_column ''CampaignID'' (fillna (Num 0))) df"
  have c: "value_of (columns df) ''SaleAmount'' (rows ?c ! i) =
           value_of (columns df) ''SaleAmount'' (rows df ! i)"
    by (rule nth_when_map_other) (simp_all add: assms)
  have ci: "i < length (rows ?c)" and cs: "''SaleAmount'' \<in> set (columns ?c)"
    using assms by simp_all
  have "value_of (columns ?c) ''SaleAmount'' (rows (sales_fill df) ! i) =
        value_of (columns ?c) ''SaleAmount'' (rows ?c ! i)"
  proof (cases "''Shipping'' \<in> set (columns ?c)")
    case True
    let ?g = "fill_with (median (column_values ?c ''Shipping''))"
    have "sales_fill df = map_column ''Shipping'' ?g ?c"
      using True by (simp add: sales_fill_def when_column_def)
    moreover have "value_of (columns ?c) ''SaleAmount'' (rows (map_column ''Shipping'' ?g ?c) ! i)
        = value_of (columns ?c) ''SaleAmount'' (rows ?c ! i)"
      using cs _ ci by (rule nth_map_column_other) simp
    ultimately show ?thesis by simp
  next
    case False
    then have "sales_fill df = ?c" by (simp add: sales_fill_def when_column_def)
    then show ?thesis by simp
  qed
  then show ?thesis using c by simp
qed

lemma sales_drop_critical_amount:
  assumes "''SaleAmount'' \<in> set (columns df)" and "r \<in> set (rows (sales_drop_critical df))"
  shows "value_of (columns df) ''SaleAmount'' r \<noteq> Null"
  using assms
  by (auto simp: sales_drop_critical_def dropna_def existing_def sales_critical_columns_def)

lemma sales_amounts_are_numbers:
  assumes "clean_sales_data df = Inr out" and "''SaleAmount'' \<in> set (columns df)"
  shows "\<forall>v \<in> set (column_values out ''SaleAmount''). \<exists>x. v = Num x \<and> 0 \<le> x"
proof -
  let ?d = "sales_format (sales_drop_critical (sales_fill (sales_coerce (remove_duplicate_records df))))"
  let ?a = "when_column ''SaleAmount''
          (\<lambda>d. filter_rows (\<lambda>r. num_ge 0 (value_of (columns d) ''SaleAmount'' r)) d) ?d"
  have sa: "''SaleAmount'' \<in> set (columns ?d)" using assms(2) by simp
  have "col_pred ?a ''SaleAmount'' (num_ge 0)"
    using sa by (simp add: when_column_def col_pred_filter_rows_est)
  then have a: "\<forall>v \<in> set (column_values ?a ''SaleAmount''). num_ge 0 v"
    by (simp only: col_pred_iff)
  have "subseq (column_values (sales_nonneg ?d) ''SaleAmount'') (column_values ?a ''SaleAmount'')"
    unfolding sales_nonneg_def by (rule subseq_when_filter) (rule subseq_filter_rows)
  then have "set (column_values (sales_before_outliers df) ''SaleAmount'')
      \<subseteq> set (column_values ?a ''SaleAmount'')"
    unfolding sales_before_outliers_def by (rule subseq_set)
  moreover have "set (column_values (sales_outliers (sales_before_outliers df)) ''SaleAmount'')
      \<subseteq> set (column_values (sales_before_outliers df) ''SaleAmount'')"
    by (rule subseq_set) (rule subseq_sales_outliers)
  moreover have "set (column_values out ''SaleAmount'')
      \<subseteq> set (column_values (sales_outliers (sales_before_outliers df)) ''SaleAmount'')"
    using clean_sales_data_values [OF assms(1,2)] by simp
  ultimately have "\<forall>v \<in> set (column_values out ''SaleAmount''). num_ge 0 v"
    using a by blast
  then show ?thesis by (auto dest: num_ge_Num)
qed

text \<open>
  Claim C8. A raw Sale row whose \<^verbatim>\<open>SaleAmount\<close> is the string \<^verbatim>\<open>"?"\<close> is dropped. The
  row is still in the table after deduplication, at some position; at that position
  \<^verbatim>\<open>SaleAmount\<close> is missing after the numeric coercion and after the fills, which
  leave the column alone; the row at that position is not among the rows the
  critical-column drop keeps. Every \<^verbatim>\<open>SaleAmount\<close> of the cleaned table is a number.
\<close>

theorem sales_question_mark_dropped:
  assumes "well_formed df" and "''SaleAmount'' \<in> set (columns df)"
    and "r \<in> set (rows df)" and "value_of (columns df) ''SaleAmount'' r = Str ''?''"
  shows "(\<exists>i < length (rows (remove_duplicate_records df)).
           rows (remove_duplicate_records df) ! i = r
         \<and> value_of (columns df) ''SaleAmount''
             (rows (sales_coerce (remove_duplicate_records df)) ! i) = Null
         \<and> value_of (columns df) ''SaleAmount''
             (rows (sales_fill (sales_coerce (remove_duplicate_records df))) ! i) = Null
         \<and> rows (sales_fill (sales_coerce (remove_duplicate_records df))) ! i
             \<notin> set (rows (sales_drop_critical
                   (sales_fill (sales_coerce (remove_duplicate_records df))))))
    \<and> (clean_sales_data df = Inr out \<longrightarrow>
           (\<forall>v \<in> set (column_values out ''SaleAmount''). \<exists>x. v = Num x))"
proof -
  let ?d = "remove_duplicate_records df"
  let ?c = "sales_coerce ?d" and ?f = "sales_fill (sales_coerce ?d)"
  have wf: "well_formed ?d" using assms(1) by (rule well_formed_remove_duplicate_records)
  have sa: "''SaleAmount'' \<in> set (columns ?d)" using assms(2) by simp
  from assms(3) have "r \<in> set (rows ?d)" by (simp add: rows_remove_duplicate_records)
  then obtain i where i: "i < length (rows ?d)" "rows ?d ! i = r"
    by (auto simp: in_set_conv_nth)
  have 1: "value_of (columns df) ''SaleAmount'' (rows ?c ! i) = Null"
    using sales_coerce_amount [OF wf sa i(1)] i(2) assms(4)
    by (simp add: parse_number_question_mark)
  have 2: "value_of (columns df) ''SaleAmount'' (rows ?f ! i) = Null"
    using sales_fill_amount [of ?c i] i(1) assms(2) 1 by simp
  have 3: "rows ?f ! i \<notin> set (rows (sales_drop_critical ?f))"
    using sales_drop_critical_amount [of ?f "rows ?f ! i"] assms(2) 2 by auto
  have a: "\<exists>i < length (rows ?d). rows ?d ! i = r
         \<and> value_of (columns df) ''SaleAmount'' (rows ?c ! i) = Null
         \<and> value_of (columns df) ''SaleAmount'' (rows ?f ! i) = Null
         \<and> rows ?f ! i \<notin> set (rows (sales_drop_critical ?f))"
    using i 1 2 3 by blast
  have b: "clean_sales_data df = Inr out \<longrightarrow>
           (\<forall>v \<in> set (column_values out ''SaleAmount''). \<exists>x. v = Num x)"
    using sales_amounts_are_numbers [of df out] assms(2) by blast
  from a b show ?thesis by (rule conjI)
qed

theorem sales_question_mark_dropped_witness:
  "well_formed
     \<lparr>columns = [''TransactionID'', ''SaleDate'', ''CustomerID'', ''ProductID'', ''StoreID'',
                 ''SaleAmount''],
      rows = [[Num 1, Str ''2024-01-01'', Num 7, Num 8, Num 9, Str ''?''],
              [Num 2, Str ''2024-01-02'', Num 7, Num 8, Num 9, Str ''10'']]\<rparr>
   \<and> value_of [''TransactionID'', ''SaleDate'', ''CustomerID'', ''ProductID'', ''StoreID'',
                 ''SaleAmount''] ''SaleAmount''
         [Num 1, Str ''2024-01-01'', Num 7, Num 8, Num 9, Str ''?''] = Str ''?''
   \<and> clean_sales_data
     \<lparr>columns = [''TransactionID'', ''SaleDate'', ''CustomerID'', ''ProductID'', ''StoreID'',
                 ''SaleAmount''],
      rows = [[Num 1, Str ''2024-01-01'', Num 7, Num 8, Num 9, Str ''?''],
              [Num 2, Str ''2024-01-02'', Num 7, Num 8, Num 9, Str ''10'']]\<rparr>
     = Inr \<lparr>columns = [''TransactionID'', ''SaleDate'', ''CustomerID'', ''ProductID'',
                 ''StoreID'', ''SaleAmount''],
            rows = [[Num 2, Timestamp 1704153600000000000, Num 7, Num 8, Num 9, Num 10]]\<rparr>
   \<and> (\<exists>x. Num 10 = Num x)"
proof -
  let ?cols = "[''TransactionID'', ''SaleDate'', ''CustomerID'', ''ProductID'', ''StoreID'',
                 ''SaleAmount'']"
  let ?r = "[Num 1, Str ''2024-01-01'', Num 7, Num 8, Num 9, Str ''?'']"
  let ?df = "\<lparr>columns = ?cols,
      rows = [?r, [Num 2, Str ''2024-01-02'', Num 7, Num 8, Num 9, Str ''10'']]\<rparr>"
  let ?out = "\<lparr>columns = ?cols,
            rows = [[Num 2, Timestamp 1704153600000000000, Num 7, Num 8, Num 9, Num 10]]\<rparr>"
  have wf: "well_formed ?df" by (simp add: well_formed_def)
  have sa: "''SaleAmount'' \<in> set (columns ?df)" by simp
  have r: "?r \<in> set (rows ?df)" by simp
  have q: "value_of (columns ?df) ''SaleAmount'' ?r = Str ''?''" by (simp add: value_of_def)
  have ev: "clean_sales_data ?df = Inr ?out" by code_simp
  from sales_question_mark_dropped [OF wf sa r q, of ?out] wf q ev
  show ?thesis by (simp add: column_values_def value_of_def)
qed

subsection \<open>Row counts never grow\<close>

lemma length_rows_le_of_subseq:
  "subseq (column_values out c) (column_values df c) \<Longrightarrow> length (rows out) \<le> length (rows df)"
  using subseq_length [of "column_values out c" "column_values df c"] by simp

lemma length_rows_remove_duplicate_records:
  "length (rows (remove_duplicate_records df)) \<le> length (rows df)"
  using subseq_length [OF dedup_first_subseq [of "\<lambda>r. r" "[]" "rows df"]]
  by (simp add: remove_duplicate_records_def)

lemma length_rows_when_format [simp]:
  "length (rows (when_column c (format_column_strings_to_upper_and_trim c) df)) = length (rows df)"
  by (simp add: when_column_def format_column_strings_to_upper_and_trim_def)

lemma length_rows_sales_format [simp]: "length (rows (sales_format df)) = length (rows df)"
  by (simp add: sales_format_def)

lemma length_rows_sales_dates [simp]: "length (rows (sales_dates df)) = length (rows df)"
  by (simp add: sales_dates_def)

lemma clean_sales_data_length:
  assumes "clean_sales_data df = Inr out"
  shows "length (rows out) \<le> length (rows df)"
proof -
  let ?d = "remove_duplicate_records df"
  let ?f = "sales_fill (sales_coerce ?d)"
  let ?b = "sales_before_outliers df"
  have "length (rows out) = length (rows (sales_outliers ?b))"
    using sort_if_present_length [OF clean_sales_data_Inr(1) [OF assms]] by simp
  also have "\<dots> \<le> length (rows ?b)"
    using subseq_sales_outliers [of ?b "''''"] by (rule length_rows_le_of_subseq)
  also have "\<dots> \<le> length (rows (sales_format (sales_drop_critical ?f)))"
    unfolding sales_before_outliers_def
    using subseq_sales_nonneg [of "sales_format (sales_drop_critical ?f)" "''''"]
    by (rule length_rows_le_of_subseq)
  also have "\<dots> = length (rows (sales_drop_critical ?f))" by simp
  also have "\<dots> \<le> length (rows ?f)"
    using subseq_sales_drop_critical [of ?f "''''"] by (rule length_rows_le_of_subseq)
  also have "\<dots> = length (rows ?d)" by simp
  also have "\<dots> \<le> length (rows df)" by (rule length_rows_remove_duplicate_records)
  finally show ?thesis .
qed

lemma clean_customers_data_length:
  assumes "clean_customers_data df = Inr out"
  shows "length (rows out) \<le> length (rows df)"
proof -
  from assms obtain deduped filtered where
    d: "drop_duplicates_subset ''CustomerID'' df = Inr deduped"
    and f: "customers_outliers (customers_dates (customers_missing (customers_format deduped))) = Inr filtered"
    and s: "sort_if_present ''CustomerID'' filtered = Inr out"
    by (rule clean_customers_data_Inr)
  let ?fm = "customers_format deduped"
  let ?dn = "dropna (existing customers_critical_columns ?fm) ?fm"
  have "length (rows out) = length (rows filtered)" using s by (rule sort_if_present_length)
  also have "\<dots> \<le> length (rows (customers_dates (customers_missing ?fm)))"
    using customers_outliers_subseq [OF f, of "''''"] by (rule length_rows_le_of_subseq)
  also have "\<dots> = length (rows ?dn)"
    by (simp add: customers_dates_def customers_missing_def)
  also have "\<dots> \<le> length (rows ?fm)"
    using subseq_dropna [of _ ?fm "''''"] by (rule length_rows_le_of_subseq)
  also have "\<dots> = length (rows deduped)"
    by (simp add: customers_format_def)
  also have "\<dots> \<le> length (rows df)"
    using drop_duplicates_subset_distinct [OF d] by (simp add: subseq_length)
  finally show ?thesis .
qed

lemma length_rows_products_missing:
  "length (rows (products_missing df)) =
   length (rows (dropna (existing products_critical_columns df) df))"
  by (simp add: products_missing_def when_column_def Let_def)

lemma clean_products_data_length:
  assumes "clean_products_data df = Inr out"
  shows "length (rows out) \<le> length (rows df)"
proof -
  from assms obtain deduped where
    d: "drop_duplicates_subset ''ProductID'' df = Inr deduped"
    and s: "sort_if_present ''ProductID''
       (products_outliers (products_missing (products_format deduped))) = Inr out"
    by (rule clean_products_data_Inr)
  let ?fm = "products_format deduped"
  let ?dn = "dropna (existing products_critical_columns ?fm) ?fm"
  have "length (rows out) = length (rows (products_outliers (products_missing ?fm)))"
    using s by (rule sort_if_present_length)
  also have "\<dots> \<le> length (rows (products_missing ?fm))"
    using subseq_products_outliers [of _ "''''"] by (rule length_rows_le_of_subseq)
  also have "\<dots> = length (rows ?dn)" by (rule length_rows_products_missing)
  also have "\<dots> \<le> length (rows ?fm)"
    using subseq_dropna [of _ ?fm "''''"] by (rule length_rows_le_of_subseq)
  also have "\<dots> = length (rows deduped)"
    by (simp add: products_format_def)
  also have "\<dots> \<le> length (rows df)"
    using drop_duplicates_subset_distinct [OF d] by (simp add: subseq_length)
  finally show ?thesis .
qed

subsection \<open>Critical columns of customers and products\<close>

lemma clean_customers_data_critical:
  assumes "clean_customers_data df = Inr out"
    and "c \<in> set customers_critical_columns" and "c \<in> set (columns df)"
  shows "Null \<notin> set (column_values out c)"
proof -
  from assms(1) obtain deduped filtered where
    d: "drop_duplicates_subset ''CustomerID'' df = Inr deduped"
    and f: "customers_outliers (customers_dates (customers_missing (customers_format deduped))) = Inr filtered"
    and s: "sort_if_present ''CustomerID'' filtered = Inr out"
    by (rule clean_customers_data_Inr)
  have cd: "columns deduped = columns df" using drop_duplicates_subset_distinct [OF d] by simp
  let ?fm = "customers_format deduped"
  let ?dn = "dropna (existing customers_critical_columns ?fm) ?fm"
  let ?ms = "customers_missing ?fm"
  have cf: "c \<in> set (columns ?fm)" using assms(3) by (simp add: cd)
  have ne: "c \<noteq> ''Region''" "c \<noteq> ''NumberOfPurshases''" "c \<noteq> ''ShoppingFrequency''"
    "c \<noteq> ''JoinDate''"
    using assms(2) by (auto simp: customers_critical_columns_def)
  have v2: "column_values ?ms c = column_values ?dn c"
    using cf ne by (simp add: column_values_customers_missing)
  have v3: "column_values (customers_dates ?ms) c = column_values ?ms c"
    using cf ne by (simp add: column_values_customers_dates)
  have nn: "Null \<notin> set (column_values ?dn c)"
    using assms(2) cf by (intro dropna_not_null existing_member)
  have "subseq (column_values filtered c) (column_values (customers_dates ?ms) c)"
    using customers_outliers_subseq [OF f] .
  then have "Null \<notin> set (column_values filtered c)"
    using nn by (simp add: v2 v3 not_null_subseq)
  then show ?thesis using sort_if_present_set [OF s] by simp
qed

lemma clean_products_data_critical:
  assumes "clean_products_data df = Inr out"
    and "c \<in> set products_critical_columns" and "c \<in> set (columns df)"
  shows "Null \<notin> set (column_values out c)"
proof -
  from assms(1) obtain deduped where
    d: "drop_duplicates_subset ''ProductID'' df = Inr deduped"
    and s: "sort_if_present ''ProductID''
       (products_outliers (products_missing (products_format deduped))) = Inr out"
    by (rule clean_products_data_Inr)
  have cd: "columns deduped = columns df" using drop_duplicates_subset_distinct [OF d] by simp
  let ?fm = "products_format deduped"
  let ?dn = "dropna (existing products_critical_columns ?fm) ?fm"
  let ?ms = "products_missing ?fm"
  have cf: "c \<in> set (columns ?fm)" using assms(3) by (simp add: cd)
  have ne: "c \<noteq> ''Category''" "c \<noteq> ''Price''"
    using assms(2) by (auto simp: products_critical_columns_def)
  have v2: "column_values ?ms c = column_values ?dn c"
    using cf ne by (simp add: column_values_products_missing)
  have nn: "Null \<notin> set (column_values ?dn c)"
    using assms(2) cf by (intro dropna_not_null existing_member)
  have "subseq (column_values (products_outliers ?ms) c) (column_values ?ms c)"
    by (rule subseq_products_outliers)
  then have "Null \<notin> set (column_values (products_outliers ?ms) c)"
    using nn by (simp add: v2 not_null_subseq)
  then show ?thesis using sort_if_present_set [OF s] by simp
qed


subsection \<open>Well-formed tables stay well-formed\<close>

lemma well_formed_sales_coerce: "well_formed df \<Longrightarrow> well_formed (sales_coerce df)"
  by (simp add: sales_coerce_def when_column_def well_formed_map_column)

lemma well_formed_sales_fill: "well_formed df \<Longrightarrow> well_formed (sales_fill df)"
  by (simp add: sales_fill_def when_column_def well_formed_map_column)

lemma well_formed_sales_drop_critical: "well_formed df \<Longrightarrow> well_formed (sales_drop_critical df)"
  by (simp add: sales_drop_critical_def dropna_def well_formed_filter_rows)

lemma well_formed_sales_format: "well_formed df \<Longrightarrow> well_formed (sales_format df)"
  by (simp add: sales_format_def when_column_def format_column_strings_to_upper_and_trim_def
      well_formed_map_column)

lemma well_formed_sales_nonneg: "well_formed df \<Longrightarrow> well_formed (sales_nonneg df)"
  by (simp add: sales_nonneg_def when_column_def well_formed_filter_rows)

lemma well_formed_sales_outliers: "well_formed df \<Longrightarrow> well_formed (sales_outliers df)"
  by (simp add: sales_outliers_def when_column_def Let_def filter_column_outliers_def
      well_formed_filter_rows)

lemma well_formed_sales_before_outliers:
  "well_formed df \<Longrightarrow> well_formed (sales_before_outliers df)"
  unfolding sales_before_outliers_def
  by (intro well_formed_sales_nonneg well_formed_sales_format well_formed_sales_drop_critical
      well_formed_sales_fill well_formed_sales_coerce well_formed_remove_duplicate_records)

subsection \<open>The date column after one cleaning and after two\<close>

lemma column_values_map_column_same:
  assumes "well_formed df" and "c \<in> set (columns df)"
  shows "column_values (map_column c f df) c = map f (column_values df c)"
proof -
  have "value_of (columns df) c (r[col_index c (columns df) := f (value_of (columns df) c r)])
        = f (value_of (columns df) c r)" if "r \<in> set (rows df)" for r
  proof -
    have "length r = length (columns df)" using assms(1) that by (rule well_formed_row)
    then have "col_index c (columns df) < length r" using assms(2) by (simp add: col_index_less)
    then show ?thesis by (rule value_of_update_same)
  qed
  then show ?thesis by (simp add: column_values_def map_column_def)
qed

lemma map_column_same_values:
  "v \<in> set (column_values (map_column c f df) c) \<Longrightarrow>
   \<exists>u \<in> set (column_values df c). v = f u \<or> v = u"
proof -
  assume "v \<in> set (column_values (map_column c f df) c)"
  then obtain r where r: "r \<in> set (rows df)"
    and v: "v = value_of (columns df) c (r[col_index c (columns df) := f (value_of (columns df) c r)])"
    by (auto simp: column_values_def map_column_def)
  have "v = f (value_of (columns df) c r) \<or> v = value_of (columns df) c r"
    using v by (cases "col_index c (columns df) < length r")
      (simp_all add: value_of_def list_update_beyond not_less)
  then show ?thesis using r by (auto simp: column_values_def)
qed

lemma to_datetime_kind: "to_datetime v = Null \<or> (\<exists>t. to_datetime v = Timestamp t)"
  by (cases v) (simp_all split: option.splits)

lemma sales_first_pass_dates:
  assumes "clean_sales_data df = Inr out" and "well_formed df" and "''SaleDate'' \<in> set (columns df)"
  shows "\<forall>v \<in> set (column_values out ''SaleDate''). v = Null \<or> (\<exists>t. v = Timestamp t)"
proof -
  let ?o = "sales_outliers (sales_before_outliers df)"
  have wf: "well_formed ?o"
    using assms(2) by (intro well_formed_sales_outliers well_formed_sales_before_outliers)
  have sd: "''SaleDate'' \<in> set (columns ?o)" using assms(3) by simp
  have "sales_dates ?o = map_column ''SaleDate'' to_datetime ?o"
    using sd by (simp add: sales_dates_def when_column_def)
  then have "column_values (sales_dates ?o) ''SaleDate'' =
      map to_datetime (column_values ?o ''SaleDate'')"
    using column_values_map_column_same [OF wf sd] by simp
  moreover have "set (column_values out ''SaleDate'') = set (column_values (sales_dates ?o) ''SaleDate'')"
    using sort_if_present_set [OF clean_sales_data_Inr(1) [OF assms(1)]] .
  ultimately have eq: "set (column_values out ''SaleDate'') =
      to_datetime ` set (column_values ?o ''SaleDate'')" by simp
  show ?thesis
  proof
    fix v assume "v \<in> set (column_values out ''SaleDate'')"
    then obtain u where "v = to_datetime u" using eq by blast
    then show "v = Null \<or> (\<exists>t. v = Timestamp t)" using to_datetime_kind [of u] by simp
  qed
qed

lemma column_values_sales_coerce:
  assumes "c \<in> set (columns df)" and "c \<noteq> ''SaleAmount''" and "c \<noteq> ''Shipping''"
  shows "column_values (sales_coerce df) c = column_values df c"
  using assms unfolding sales_coerce_def by (simp add: column_values_when_map_other)

lemma column_values_sales_fill:
  assumes "c \<in> set (columns df)" and "c \<noteq> ''CampaignID''" and "c \<noteq> ''Shipping''"
  shows "column_values (sales_fill df) c = column_values df c"
proof -
  let ?c = "when_column ''CampaignID'' (map_column ''CampaignID'' (fillna (Num 0))) df"
  have 1: "column_values ?c c = column_values df c"
    using assms(1,2) by (simp add: column_values_when_map_other)
  have cc: "c \<in> set (columns ?c)" using assms(1) by simp
  have "column_values (sales_fill df) c = column_values ?c c"
    unfolding sales_fill_def when_column_def
    using cc assms(3) by (simp add: column_values_map_column_other)
  then show ?thesis using 1 by simp
qed

lemma column_values_remove_duplicate_records:
  "set (column_values (remove_duplicate_records df) c) = set (column_values df c)"
  using rows_remove_duplicate_records [of df] by (simp add: column_values_def)

lemma sales_dates_untouched_by_fills:
  assumes "''SaleDate'' \<in> set (columns df)"
  shows "set (column_values (sales_fill (sales_coerce (remove_duplicate_records df))) ''SaleDate'')
     = set (column_values df ''SaleDate'')"
proof -
  let ?d = "remove_duplicate_records df"
  have 1: "''SaleDate'' \<in> set (columns ?d)" using assms by simp
  have 2: "''SaleDate'' \<in> set (columns (sales_coerce ?d))" using assms by simp
  have "column_values (sales_fill (sales_coerce ?d)) ''SaleDate'' =
        column_values (sales_coerce ?d) ''SaleDate''"
    using 2 by (rule column_values_sales_fill) simp_all
  also have "\<dots> = column_values ?d ''SaleDate''"
    using 1 by (rule column_values_sales_coerce) simp_all
  finally show ?thesis by (simp only: column_values_remove_duplicate_records)
qed

lemma sales_second_pass_dates:
  assumes "clean_sales_data df = Inr out" and "''SaleDate'' \<in> set (columns df)"
    and "\<forall>v \<in> set (column_values df ''SaleDate''). v = Null \<or> (\<exists>t. v = Timestamp t)"
  shows "Null \<notin> set (column_values out ''SaleDate'')"
proof
  let ?k = "''SaleDate''"
  let ?f = "sales_fill (sales_coerce (remove_duplicate_records df))"
  let ?dc = "sales_drop_critical ?f"
  let ?b = "sales_before_outliers df"
  let ?o = "sales_outliers ?b"
  assume "Null \<in> set (column_values out ?k)"
  then have "Null \<in> set (column_values (sales_dates ?o) ?k)"
    using sort_if_present_set [OF clean_sales_data_Inr(1) [OF assms(1)]] by simp
  moreover have sd: "?k \<in> set (columns ?o)" using assms(2) by simp
  then have "sales_dates ?o = map_column ?k to_datetime ?o"
    by (simp add: sales_dates_def when_column_def)
  ultimately have "Null \<in> set (column_values (map_column ?k to_datetime ?o) ?k)" by simp
  then obtain u where u: "u \<in> set (column_values ?o ?k)" "Null = to_datetime u \<or> Null = u"
    by (rule map_column_same_values [THEN bexE])
  have "set (column_values ?o ?k) \<subseteq> set (column_values ?b ?k)"
    by (rule subseq_set) (rule subseq_sales_outliers)
  then have ub: "u \<in> set (column_values ?b ?k)" using u(1) by (rule subsetD)
  have "set (column_values ?b ?k) \<subseteq> set (column_values (sales_format ?dc) ?k)"
    unfolding sales_before_outliers_def by (rule subseq_set) (rule subseq_sales_nonneg)
  then have "u \<in> set (column_values (sales_format ?dc) ?k)" using ub by (rule subsetD)
  moreover have "column_values (sales_format ?dc) ?k = column_values ?dc ?k"
    by (rule column_values_sales_format) (simp_all add: assms(2))
  ultimately have udc: "u \<in> set (column_values ?dc ?k)" by simp
  have "Null \<notin> set (column_values ?dc ?k)"
    unfolding sales_drop_critical_def
    by (rule dropna_not_null) (simp add: existing_def sales_critical_columns_def assms(2))
  then have un: "u \<noteq> Null" using udc by auto
  have "set (column_values ?dc ?k) \<subseteq> set (column_values ?f ?k)"
    by (rule subseq_set) (rule subseq_sales_drop_critical)
  then have "u \<in> set (column_values ?f ?k)" using udc by (rule subsetD)
  then have "u \<in> set (column_values df ?k)"
    by (simp only: sales_dates_untouched_by_fills [OF assms(2)])
  with assms(3) have "u = Null \<or> (\<exists>t. u = Timestamp t)" by (rule bspec)
  then obtain t where "u = Timestamp t" using un by auto
  then show False using u(2) by simp
qed


subsection \<open>Cleaning a cleaned table again\<close>

lemma sales_recleaning:
  assumes "clean_sales_data sales = Inr once" and "clean_sales_data once = Inr twice"
    and "well_formed sales"
  shows "length (rows twice) \<le> length (rows once)
    \<and> (\<forall>c \<in> set sales_critical_columns.
          c \<in> set (columns twice) \<longrightarrow> Null \<notin> set (column_values twice c))
    \<and> (''TransactionID'' \<in> set (columns twice) \<longrightarrow> sorted (column_values twice ''TransactionID''))"
proof (intro conjI ballI impI)
  have c1: "columns once = columns sales" using assms(1) by (rule clean_sales_data_Inr(2))
  have c2: "columns twice = columns once" using assms(2) by (rule clean_sales_data_Inr(2))
  show "length (rows twice) \<le> length (rows once)"
    using assms(2) by (rule clean_sales_data_length)
  show "Null \<notin> set (column_values twice c)"
    if c: "c \<in> set sales_critical_columns" "c \<in> set (columns twice)" for c
  proof (cases "c = ''SaleDate''")
    case True
    have sd: "''SaleDate'' \<in> set (columns sales)" using c(2) True by (simp add: c1 c2)
    have "\<forall>v \<in> set (column_values once ''SaleDate''). v = Null \<or> (\<exists>t. v = Timestamp t)"
      using assms(1,3) sd by (rule sales_first_pass_dates)
    moreover have "''SaleDate'' \<in> set (columns once)" using sd by (simp add: c1)
    ultimately have "Null \<notin> set (column_values twice ''SaleDate'')"
      using assms(2) by (intro sales_second_pass_dates [of once])
    then show ?thesis using True by simp
  next
    case False
    have "c \<in> set (columns once)" using c(2) by (simp add: c2)
    with assms(2) c(1) False show ?thesis by (rule sales_critical_not_null)
  qed
  show "sorted (column_values twice ''TransactionID'')"
    if "''TransactionID'' \<in> set (columns twice)"
  proof -
    let ?x = "sales_dates (sales_outliers (sales_before_outliers once))"
    have "''TransactionID'' \<in> set (columns ?x)" using that by (simp add: c2)
    with clean_sales_data_Inr(1) [OF assms(2)] show ?thesis by (rule sort_if_present_sorted)
  qed
qed

lemma customers_recleaning:
  assumes "clean_customers_data once = Inr twice"
  shows "length (rows twice) \<le> length (rows once)
    \<and> (\<forall>c \<in> set customers_critical_columns.
          c \<in> set (columns twice) \<longrightarrow> Null \<notin> set (column_values twice c))
    \<and> sorted (column_values twice ''CustomerID'')"
proof (intro conjI ballI impI)
  from assms obtain deduped filtered where
    d: "drop_duplicates_subset ''CustomerID'' once = Inr deduped"
    and f: "customers_outliers (customers_dates (customers_missing (customers_format deduped))) = Inr filtered"
    and s: "sort_if_present ''CustomerID'' filtered = Inr twice"
    by (rule clean_customers_data_Inr)
  have cols: "columns twice = columns once" and k: "''CustomerID'' \<in> set (columns once)"
    using clean_customers_data_key [OF assms] by simp_all
  show "length (rows twice) \<le> length (rows once)"
    using assms by (rule clean_customers_data_length)
  show "Null \<notin> set (column_values twice c)"
    if "c \<in> set customers_critical_columns" "c \<in> set (columns twice)" for c
    using assms that by (intro clean_customers_data_critical [of once]) (simp_all add: cols)
  have "columns filtered = columns once"
    using customers_outliers_columns [OF f] drop_duplicates_subset_distinct [OF d] by simp
  then have "''CustomerID'' \<in> set (columns filtered)" using k by simp
  with s show "sorted (column_values twice ''CustomerID'')" by (rule sort_if_present_sorted)
qed

lemma products_recleaning:
  assumes "clean_products_data once = Inr twice"
  shows "length (rows twice) \<le> length (rows once)
    \<and> (\<forall>c \<in> set products_critical_columns.
          c \<in> set (columns twice) \<longrightarrow> Null \<notin> set (column_values twice c))
    \<and> sorted (column_values twice ''ProductID'')"
proof (intro conjI ballI impI)
  from assms obtain deduped where
    d: "drop_duplicates_subset ''ProductID'' once = Inr deduped"
    and s: "sort_if_present ''ProductID''
       (products_outliers (products_missing (products_format deduped))) = Inr twice"
    by (rule clean_products_data_Inr)
  have cols: "columns twice = columns once" and k: "''ProductID'' \<in> set (columns once)"
    using clean_products_data_key [OF assms] by simp_all
  show "length (rows twice) \<le> length (rows once)"
    using assms by (rule clean_products_data_length)
  show "Null \<notin> set (column_values twice c)"
    if "c \<in> set products_critical_columns" "c \<in> set (columns twice)" for c
    using assms that by (intro clean_products_data_critical [of once]) (simp_all add: cols)
  have "columns deduped = columns once"
    using drop_duplicates_subset_distinct [OF d] by simp
  then have "''ProductID'' \<in> set (columns (products_outliers (products_missing (products_format deduped))))"
    using k by simp
  with s show "sorted (column_values twice ''ProductID'')" by (rule sort_if_present_sorted)
qed

text \<open>
  Claim C4, as the code has it. When a cleaner is applied to its own output and returns,
  the row count does not grow, no critical column of the result holds a missing value,
  and the result is sorted ascending by the primary key. The row count can shrink: the
  outlier bounds are taken anew from the rows that are left, and a sale whose date did
  not parse lost its date after the critical-column drop of the first pass and is
  dropped by that of the second.
\<close>

theorem recleaning_cleaned_tables:
  "(well_formed sales \<and> clean_sales_data sales = Inr sales1 \<and> clean_sales_data sales1 = Inr sales2
      \<longrightarrow> length (rows sales2) \<le> length (rows sales1)
        \<and> (\<forall>c \<in> set sales_critical_columns.
              c \<in> set (columns sales2) \<longrightarrow> Null \<notin> set (column_values sales2 c))
        \<and> (''TransactionID'' \<in> set (columns sales2) \<longrightarrow>
              sorted (column_values sales2 ''TransactionID'')))
   \<and> (clean_customers_data customers = Inr customers1
        \<and> clean_customers_data customers1 = Inr customers2
      \<longrightarrow> length (rows customers2) \<le> length (rows customers1)
        \<and> (\<forall>c \<in> set customers_critical_columns.
              c \<in> set (columns customers2) \<longrightarrow> Null \<notin> set (column_values customers2 c))
        \<and> sorted (column_values customers2 ''CustomerID''))
   \<and> (clean_products_data products = Inr products1
        \<and> clean_products_data products1 = Inr products2
      \<longrightarrow> length (rows products2) \<le> length (rows products1)
        \<and> (\<forall>c \<in> set products_critical_columns.
              c \<in> set (columns products2) \<longrightarrow> Null \<notin> set (column_values products2 c))
        \<and> sorted (column_values products2 ''ProductID''))"
  using sales_recleaning [of sales sales1 sales2] customers_recleaning [of customers1 customers2]
    products_recleaning [of products1 products2]
  by blast


theorem recleaning_cleaned_tables_witness:
  "well_formed
     \<lparr>columns = [''TransactionID'', ''SaleDate'', ''SaleAmount''],
      rows = [[Num 2, Str ''not a date'', Num 5], [Num 1, Str ''2024-01-01'', Num 5]]\<rparr>
   \<and> clean_sales_data
     \<lparr>columns = [''TransactionID'', ''SaleDate'', ''SaleAmount''],
      rows = [[Num 2, Str ''not a date'', Num 5], [Num 1, Str ''2024-01-01'', Num 5]]\<rparr>
     = Inr \<lparr>columns = [''TransactionID'', ''SaleDate'', ''SaleAmount''],
      rows = [[Num 1, Timestamp 1704067200000000000, Num 5], [Num 2, Null, Num 5]]\<rparr>
   \<and> clean_sales_data
     \<lparr>columns = [''TransactionID'', ''SaleDate'', ''SaleAmount''],
      rows = [[Num 1, Timestamp 1704067200000000000, Num 5], [Num 2, Null, Num 5]]\<rparr>
     = Inr \<lparr>columns = [''TransactionID'', ''SaleDate'', ''SaleAmount''],
      rows = [[Num 1, Timestamp 1704067200000000000, Num 5]]\<rparr>
   \<and> clean_customers_data
     \<lparr>columns = [''CustomerID'', ''Name''],
      rows = [[Num 2, Str ''bob''], [Num 1, Str ''al'']]\<rparr>
     = Inr \<lparr>columns = [''CustomerID'', ''Name''],
      rows = [[Num 1, Str ''AL''], [Num 2, Str ''BOB'']]\<rparr>
   \<and> clean_customers_data
     \<lparr>columns = [''CustomerID'', ''Name''],
      rows = [[Num 1, Str ''AL''], [Num 2, Str ''BOB'']]\<rparr>
     = Inr \<lparr>columns = [''CustomerID'', ''Name''],
      rows = [[Num 1, Str ''AL''], [Num 2, Str ''BOB'']]\<rparr>
   \<and> clean_products_data
     \<lparr>columns = [''ProductID'', ''ProductName''],
      rows = [[Num 2, Str ''pen''], [Num 1, Str ''ink'']]\<rparr>
     = Inr \<lparr>columns = [''ProductID'', ''ProductName''],
      rows = [[Num 1, Str ''INK''], [Num 2, Str ''PEN'']]\<rparr>
   \<and> clean_products_data
     \<lparr>columns = [''ProductID'', ''ProductName''],
      rows = [[Num 1, Str ''INK''], [Num 2, Str ''PEN'']]\<rparr>
     = Inr \<lparr>columns = [''ProductID'', ''ProductName''],
      rows = [[Num 1, Str ''INK''], [Num 2, Str ''PEN'']]\<rparr>
   \<and> length [[Num 1, Timestamp 1704067200000000000, Num 5]]
       \<le> length [[Num 1, Timestamp 1704067200000000000, Num 5], [Num 2, Null, Num 5]]
   \<and> sorted [Num 1 :: cell] \<and> sorted [Num 1, Num 2 :: cell]"
proof -
  have wf: "well_formed
     \<lparr>columns = [''TransactionID'', ''SaleDate'', ''SaleAmount''],
      rows = [[Num 2, Str ''not a date'', Num 5], [Num 1, Str ''2024-01-01'', Num 5]]\<rparr>"
    by (simp add: well_formed_def)
  have s1: "clean_sales_data
     \<lparr>columns = [''TransactionID'', ''SaleDate'', ''SaleAmount''],
      rows = [[Num 2, Str ''not a date'', Num 5], [Num 1, Str ''2024-01-01'', Num 5]]\<rparr>
     = Inr \<lparr>columns = [''TransactionID'', ''SaleDate'', ''SaleAmount''],
      rows = [[Num 1, Timestamp 1704067200000000000, Num 5], [Num 2, Null, Num 5]]\<rparr>"
    by code_simp
  have s2: "clean_sales_data
     \<lparr>columns = [''TransactionID'', ''SaleDate'', ''SaleAmount''],
      rows = [[Num 1, Timestamp 1704067200000000000, Num 5], [Num 2, Null, Num 5]]\<rparr>
     = Inr \<lparr>columns = [''TransactionID'', ''SaleDate'', ''SaleAmount''],
      rows = [[Num 1, Timestamp 1704067200000000000, Num 5]]\<rparr>"
    by code_simp
  have c1: "clean_customers_data
     \<lparr>columns = [''CustomerID'', ''Name''],
      rows = [[Num 2, Str ''bob''], [Num 1, Str ''al'']]\<rparr>
     = Inr \<lparr>columns = [''CustomerID'', ''Name''],
      rows = [[Num 1, Str ''AL''], [Num 2, Str ''BOB'']]\<rparr>"
    by code_simp
  have c2: "clean_customers_data
     \<lparr>columns = [''CustomerID'', ''Name''],
      rows = [[Num 1, Str ''AL''], [Num 2, Str ''BOB'']]\<rparr>
     = Inr \<lparr>columns = [''CustomerID'', ''Name''],
      rows = [[Num 1, Str ''AL''], [Num 2, Str ''BOB'']]\<rparr>"
    by code_simp
  have p1: "clean_products_data
     \<lparr>columns = [''ProductID'', ''ProductName''],
      rows = [[Num 2, Str ''pen''], [Num 1, Str ''ink'']]\<rparr>
     = Inr \<lparr>columns = [''ProductID'', ''ProductName''],
      rows = [[Num 1, Str ''INK''], [Num 2, Str ''PEN'']]\<rparr>"
    by code_simp
  have p2: "clean_products_data
     \<lparr>columns = [''ProductID'', ''ProductName''],
      rows = [[Num 1, Str ''INK''], [Num 2, Str ''PEN'']]\<rparr>
     = Inr \<lparr>columns = [''ProductID'', ''ProductName''],
      rows = [[Num 1, Str ''INK''], [Num 2, Str ''PEN'']]\<rparr>"
    by code_simp
  from recleaning_cleaned_tables [of
     "\<lparr>columns = [''TransactionID'', ''SaleDate'', ''SaleAmount''],
      rows = [[Num 2, Str ''not a date'', Num 5], [Num 1, Str ''2024-01-01'', Num 5]]\<rparr>"
     "\<lparr>columns = [''TransactionID'', ''SaleDate'', ''SaleAmount''],
      rows = [[Num 1, Timestamp 1704067200000000000, Num 5], [Num 2, Null, Num 5]]\<rparr>"
     "\<lparr>columns = [''TransactionID'', ''SaleDate'', ''SaleAmount''],
      rows = [[Num 1, Timestamp 1704067200000000000, Num 5]]\<rparr>"
     "\<lparr>columns = [''CustomerID'', ''Name''],
      rows = [[Num 2, Str ''bob''], [Num 1, Str ''al'']]\<rparr>"
     "\<lparr>columns = [''CustomerID'', ''Name''],
      rows = [[Num 1, Str ''AL''], [Num 2, Str ''BOB'']]\<rparr>"
     "\<lparr>columns = [''CustomerID'', ''Name''],
      rows = [[Num 1, Str ''AL''], [Num 2, Str ''BOB'']]\<rparr>"
     "\<lparr>columns = [''ProductID'', ''ProductName''],
      rows = [[Num 2, Str ''pen''], [Num 1, Str ''ink'']]\<rparr>"
     "\<lparr>columns = [''ProductID'', ''ProductName''],
      rows = [[Num 1, Str ''INK''], [Num 2, Str ''PEN'']]\<rparr>"
     "\<lparr>columns = [''ProductID'', ''ProductName''],
      rows = [[Num 1, Str ''INK''], [Num 2, Str ''PEN'']]\<rparr>"]
    wf s1 s2 c1 c2 p1 p2
  show ?thesis by (simp add: column_values_def value_of_def)
qed

text \<open>
  A sale with an unreadable date is kept by the first cleaning, with a missing date, and
  dropped by the second.
\<close>

theorem recleaning_row_count_counterexample:
  "clean_sales_data
     \<lparr>columns = [''TransactionID'', ''SaleDate'', ''SaleAmount''],
      rows = [[Num 2, Str ''not a date'', Num 5], [Num 1, Str ''2024-01-01'', Num 5]]\<rparr>
     = Inr \<lparr>columns = [''TransactionID'', ''SaleDate'', ''SaleAmount''],
      rows = [[Num 1, Timestamp 1704067200000000000, Num 5], [Num 2, Null, Num 5]]\<rparr>
   \<and> clean_sales_data
     \<lparr>columns = [''TransactionID'', ''SaleDate'', ''SaleAmount''],
      rows = [[Num 1, Timestamp 1704067200000000000, Num 5], [Num 2, Null, Num 5]]\<rparr>
     = Inr \<lparr>columns = [''TransactionID'', ''SaleDate'', ''SaleAmount''],
      rows = [[Num 1, Timestamp 1704067200000000000, Num 5]]\<rparr>
   \<and> length (rows \<lparr>columns = [''TransactionID'', ''SaleDate'', ''SaleAmount''],
      rows = [[Num 1, Timestamp 1704067200000000000, Num 5], [Num 2, Null, Num 5]]\<rparr>) = 2
   \<and> length (rows \<lparr>columns = [''TransactionID'', ''SaleDate'', ''SaleAmount''],
      rows = [[Num 1, Timestamp 1704067200000000000, Num 5]]\<rparr>) = 1"
proof (intro conjI)
  show "clean_sales_data
     \<lparr>columns = [''TransactionID'', ''SaleDate'', ''SaleAmount''],
      rows = [[Num 2, Str ''not a date'', Num 5], [Num 1, Str ''2024-01-01'', Num 5]]\<rparr>
     = Inr \<lparr>columns = [''TransactionID'', ''SaleDate'', ''SaleAmount''],
      rows = [[Num 1, Timestamp 1704067200000000000, Num 5], [Num 2, Null, Num 5]]\<rparr>"
    by code_simp
  show "clean_sales_data
     \<lparr>columns = [''TransactionID'', ''SaleDate'', ''SaleAmount''],
      rows = [[Num 1, Timestamp 1704067200000000000, Num 5], [Num 2, Null, Num 5]]\<rparr>
     = Inr \<lparr>columns = [''TransactionID'', ''SaleDate'', ''SaleAmount''],
      rows = [[Num 1, Timestamp 1704067200000000000, Num 5]]\<rparr>"
    by code_simp
  show "length (rows \<lparr>columns = [''TransactionID'', ''SaleDate'', ''SaleAmount''],
      rows = [[Num 1, Timestamp 1704067200000000000, Num 5], [Num 2, Null, Num 5]]\<rparr>) = 2" by simp
  show "length (rows \<lparr>columns = [''TransactionID'', ''SaleDate'', ''SaleAmount''],
      rows = [[Num 1, Timestamp 1704067200000000000, Num 5]]\<rparr>) = 1" by simp
qed

subsection \<open>The median is a median\<close>

lemma length_filter_mset_eq:
  "mset xs = mset ys \<Longrightarrow> length (filter P xs) = length (filter P ys)"
  by (metis mset_filter size_mset)

lemma sorted_count_le:
  assumes "sorted (ys :: rat list)" and "k < length ys"
  shows "k + 1 \<le> length (filter (\<lambda>x. x \<le> ys ! k) ys)"
proof -
  have "\<forall>x \<in> set (take (k + 1) ys). x \<le> ys ! k"
  proof
    fix x assume "x \<in> set (take (k + 1) ys)"
    then obtain j where j: "j < k + 1" "j < length ys" "x = ys ! j"
      by (auto simp: in_set_conv_nth)
    then show "x \<le> ys ! k" using assms by (simp add: sorted_nth_mono)
  qed
  then have "filter (\<lambda>x. x \<le> ys ! k) (take (k + 1) ys) = take (k + 1) ys" by simp
  moreover have "filter (\<lambda>x. x \<le> ys ! k) ys =
      filter (\<lambda>x. x \<le> ys ! k) (take (k + 1) ys) @ filter (\<lambda>x. x \<le> ys ! k) (drop (k + 1) ys)"
    by (metis append_take_drop_id filter_append)
  ultimately have "length (filter (\<lambda>x. x \<le> ys ! k) ys) \<ge> length (take (k + 1) ys)" by simp
  then show ?thesis using assms(2) by simp
qed

lemma sorted_count_ge:
  assumes "sorted (ys :: rat list)" and "k < length ys"
  shows "length ys - k \<le> length (filter (\<lambda>x. ys ! k \<le> x) ys)"
proof -
  have "\<forall>x \<in> set (drop k ys). ys ! k \<le> x"
  proof
    fix x assume "x \<in> set (drop k ys)"
    then obtain j where j: "j < length ys - k" "x = ys ! (k + j)"
      by (auto simp: in_set_conv_nth)
    then show "ys ! k \<le> x" using assms by (simp add: sorted_nth_mono)
  qed
  then have "filter (\<lambda>x. ys ! k \<le> x) (drop k ys) = drop k ys" by simp
  moreover have "filter (\<lambda>x. ys ! k \<le> x) ys =
      filter (\<lambda>x. ys ! k \<le> x) (take k ys) @ filter (\<lambda>x. ys ! k \<le> x) (drop k ys)"
    by (metis append_take_drop_id filter_append)
  ultimately have "length (filter (\<lambda>x. ys ! k \<le> x) ys) \<ge> length (drop k ys)" by simp
  then show ?thesis by simp
qed

lemma length_filter_mono:
  "(\<And>x. P x \<Longrightarrow> Q x) \<Longrightarrow> length (filter P xs) \<le> length (filter Q xs)"
  by (induction xs) auto

lemma sort_eq_Nil_iff: "sort xs = [] \<longleftrightarrow> xs = []"
  by (metis length_sort length_0_conv)

lemma median_odd:
  "numbers_of cs \<noteq> [] \<Longrightarrow> odd (length (numbers_of cs)) \<Longrightarrow>
   median cs = Some (sort (numbers_of cs) ! (length (numbers_of cs) div 2))"
  by (simp add: median_def Let_def sort_eq_Nil_iff)

lemma median_even:
  "numbers_of cs \<noteq> [] \<Longrightarrow> even (length (numbers_of cs)) \<Longrightarrow>
   median cs = Some ((sort (numbers_of cs) ! (length (numbers_of cs) div 2 - 1)
                      + sort (numbers_of cs) ! (length (numbers_of cs) div 2)) / 2)"
  by (simp add: median_def Let_def sort_eq_Nil_iff)

lemma median_None: "numbers_of cs = [] \<Longrightarrow> median cs = None"
  by (simp add: median_def Let_def)

lemma median_is_median:
  assumes "median cs = Some m"
  shows "length (numbers_of cs) \<le> 2 * length (filter (\<lambda>x. x \<le> m) (numbers_of cs))
       \<and> length (numbers_of cs) \<le> 2 * length (filter (\<lambda>x. m \<le> x) (numbers_of cs))"
proof -
  let ?xs = "numbers_of cs" and ?ys = "sort (numbers_of cs)"
  let ?n = "length ?ys"
  have n: "?n = length ?xs" by simp
  have s: "sorted ?ys" by simp
  have ms: "mset ?ys = mset ?xs" by simp
  have ne: "?xs \<noteq> []" using assms median_None [of cs] by auto
  then have pos: "0 < ?n" by simp
  have le: "length (filter (\<lambda>x. x \<le> m) ?xs) = length (filter (\<lambda>x. x \<le> m) ?ys)"
    using ms by (intro length_filter_mset_eq) simp
  have ge: "length (filter (\<lambda>x. m \<le> x) ?xs) = length (filter (\<lambda>x. m \<le> x) ?ys)"
    using ms by (intro length_filter_mset_eq) simp
  show ?thesis
  proof (cases "odd ?n")
    case True
    then have m: "m = ?ys ! (?n div 2)"
      using assms median_odd [OF ne] by simp
    have k: "?n div 2 < ?n" using pos by simp
    have "?n div 2 + 1 \<le> length (filter (\<lambda>x. x \<le> m) ?ys)"
      unfolding m using s k by (rule sorted_count_le)
    moreover have "?n - ?n div 2 \<le> length (filter (\<lambda>x. m \<le> x) ?ys)"
      unfolding m using s k by (rule sorted_count_ge)
    ultimately show ?thesis unfolding le ge n [symmetric] by linarith
  next
    case False
    then have ev: "even ?n" by simp
    then have two: "2 \<le> ?n" using pos by presburger
    let ?a = "?ys ! (?n div 2 - 1)" and ?b = "?ys ! (?n div 2)"
    have m: "m = (?a + ?b) / 2"
      using assms median_even [OF ne] ev by simp
    have ka: "?n div 2 - 1 < ?n" and kb: "?n div 2 < ?n" using two by simp_all
    have ab: "?a \<le> ?b" using s kb by (simp add: sorted_nth_mono)
    have am: "?a \<le> m" and mb: "m \<le> ?b" using ab unfolding m by simp_all
    have "?n div 2 - 1 + 1 \<le> length (filter (\<lambda>x. x \<le> ?a) ?ys)"
      using s ka by (rule sorted_count_le)
    also have "\<dots> \<le> length (filter (\<lambda>x. x \<le> m) ?ys)"
      using am by (intro length_filter_mono) simp
    finally have 1: "?n div 2 \<le> length (filter (\<lambda>x. x \<le> m) ?ys)" using two by simp
    have "?n - ?n div 2 \<le> length (filter (\<lambda>x. ?b \<le> x) ?ys)"
      using s kb by (rule sorted_count_ge)
    also have "\<dots> \<le> length (filter (\<lambda>x. m \<le> x) ?ys)"
      using mb by (intro length_filter_mono) simp
    finally have 2: "?n - ?n div 2 \<le> length (filter (\<lambda>x. m \<le> x) ?ys)" .
    have "?n = 2 * (?n div 2)" using ev by simp
    then show ?thesis using 1 2 unfolding le ge n [symmetric] by linarith
  qed
qed

subsection \<open>Shipping: coerced, filled with the median, filtered\<close>

lemma sales_coerce_shipping:
  assumes "well_formed df" and "''Shipping'' \<in> set (columns df)" and "i < length (rows df)"
  shows "value_of (columns df) ''Shipping'' (rows (sales_coerce df) ! i) =
         to_numeric (replace_free (value_of (columns df) ''Shipping'' (rows df ! i)))"
proof -
  let ?a = "when_column ''SaleAmount'' (map_column ''SaleAmount'' to_numeric) df"
  have wa: "well_formed ?a"
    using assms(1) by (intro well_formed_when_column well_formed_map_column)
  have sa: "''Shipping'' \<in> set (columns ?a)" and ia: "i < length (rows ?a)"
    using assms(2,3) by simp_all
  have "sales_coerce df = map_column ''Shipping'' (to_numeric \<circ> replace_free) ?a"
    using sa by (simp add: sales_coerce_def when_column_def)
  then have "value_of (columns ?a) ''Shipping'' (rows (sales_coerce df) ! i) =
      (to_numeric \<circ> replace_free) (value_of (columns ?a) ''Shipping'' (rows ?a ! i))"
    using nth_map_column_same [OF wa sa ia] by simp
  moreover have "value_of (columns df) ''Shipping'' (rows ?a ! i) =
      value_of (columns df) ''Shipping'' (rows df ! i)"
    using assms(2) _ assms(3) by (rule nth_when_map_other) simp
  ultimately show ?thesis by simp
qed

lemma sales_fill_shipping:
  assumes "well_formed df" and "''Shipping'' \<in> set (columns df)" and "i < length (rows df)"
  shows "value_of (columns df) ''Shipping'' (rows (sales_fill df) ! i) =
         fill_with (median (column_values df ''Shipping''))
           (value_of (columns df) ''Shipping'' (rows df ! i))"
proof -
  let ?d = "when_column ''CampaignID'' (map_column ''CampaignID'' (fillna (Num 0))) df"
  have wd: "well_formed ?d"
    using assms(1) by (intro well_formed_when_column well_formed_map_column)
  have sd: "''Shipping'' \<in> set (columns ?d)" and id: "i < length (rows ?d)"
    using assms(2,3) by simp_all
  have cv: "column_values ?d ''Shipping'' = column_values df ''Shipping''"
    using assms(2) by (rule column_values_when_map_other) simp
  have "sales_fill df = map_column ''Shipping'' (fill_with (median (column_values ?d ''Shipping''))) ?d"
    using sd by (simp add: sales_fill_def when_column_def)
  then have "value_of (columns ?d) ''Shipping'' (rows (sales_fill df) ! i) =
      fill_with (median (column_values ?d ''Shipping''))
        (value_of (columns ?d) ''Shipping'' (rows ?d ! i))"
    using nth_map_column_same [OF wd sd id] by simp
  moreover have "value_of (columns df) ''Shipping'' (rows ?d ! i) =
      value_of (columns df) ''Shipping'' (rows df ! i)"
    using assms(2) _ assms(3) by (rule nth_when_map_other) simp
  ultimately show ?thesis by (simp add: cv)
qed

lemma fill_with_cases:
  "fill_with m v = (if v = Null then (case m of None \<Rightarrow> Null | Some x \<Rightarrow> Num x) else v)"
  by (simp add: fill_with_def fillna_def split: option.splits)

lemma sales_nonneg_removes:
  assumes "''Shipping'' \<in> set (columns df)" and "r \<in> set (rows (sales_nonneg df))"
  shows "num_ge 0 (value_of (columns df) ''Shipping'' r)"
  using sales_nonneg_shipping [OF assms(1)] assms(2) by (simp add: col_pred_def)

text \<open>
  Claim C10. In every table \<^verbatim>\<open>clean_sales_data\<close> returns that has a
  \<^verbatim>\<open>Shipping\<close> column, every \<^verbatim>\<open>Shipping\<close> value is a number, so not missing, and
  is not negative. On the way there, row by row of the deduplicated table: the coercion
  reads \<^verbatim>\<open>"free"\<close> as 0 and any other cell as a number or as missing; the fill puts
  the median of the coerced column where the coerced value is missing and leaves every
  other value alone, and leaves the missing ones missing when the column has no number
  and so no median; that median has at least half of the column's numbers at or below
  it and at least half at or above it; the filter \<^verbatim>\<open>Shipping >= 0\<close> keeps no row
  whose value is missing or negative; and every \<^verbatim>\<open>Shipping\<close> value of the
  returned table is a value of the filled column.
\<close>

theorem sales_shipping_filled_nonneg:
  assumes "clean_sales_data df = Inr out" and "''Shipping'' \<in> set (columns out)"
  shows "(\<forall>r \<in> set (rows out). \<exists>x. value_of (columns out) ''Shipping'' r = Num x \<and> 0 \<le> x)
    \<and> (well_formed df \<longrightarrow>
         (\<forall>i < length (rows (remove_duplicate_records df)).
            value_of (columns df) ''Shipping''
                (rows (sales_coerce (remove_duplicate_records df)) ! i)
              = to_numeric (replace_free
                  (value_of (columns df) ''Shipping'' (rows (remove_duplicate_records df) ! i)))
          \<and> value_of (columns df) ''Shipping''
                (rows (sales_fill (sales_coerce (remove_duplicate_records df))) ! i)
              = (if value_of (columns df) ''Shipping''
                      (rows (sales_coerce (remove_duplicate_records df)) ! i) = Null
                 then (case median (column_values (sales_coerce (remove_duplicate_records df))
                                      ''Shipping'') of
                         None \<Rightarrow> Null | Some m \<Rightarrow> Num m)
                 else value_of (columns df) ''Shipping''
                        (rows (sales_coerce (remove_duplicate_records df)) ! i))))
    \<and> (\<forall>m. median (column_values (sales_coerce (remove_duplicate_records df)) ''Shipping'')
              = Some m \<longrightarrow>
           length (numbers_of (column_values (sales_coerce (remove_duplicate_records df))
                     ''Shipping''))
             \<le> 2 * length (filter (\<lambda>x. x \<le> m)
                   (numbers_of (column_values (sales_coerce (remove_duplicate_records df))
                      ''Shipping'')))
         \<and> length (numbers_of (column_values (sales_coerce (remove_duplicate_records df))
                     ''Shipping''))
             \<le> 2 * length (filter (\<lambda>x. m \<le> x)
                   (numbers_of (column_values (sales_coerce (remove_duplicate_records df))
                      ''Shipping''))))
    \<and> (\<forall>r \<in> set (rows (sales_before_outliers df)).
           num_ge 0 (value_of (columns df) ''Shipping'' r))
    \<and> set (column_values out ''Shipping'')
        \<subseteq> set (column_values (sales_fill (sales_coerce (remove_duplicate_records df)))
                  ''Shipping'')"
proof -
  let ?d = "remove_duplicate_records df"
  let ?c = "sales_coerce ?d"
  have cols: "columns out = columns df" using assms(1) by (rule clean_sales_data_Inr(2))
  then have sh: "''Shipping'' \<in> set (columns df)" using assms(2) by simp
  have 1: "\<forall>r \<in> set (rows out). \<exists>x. value_of (columns out) ''Shipping'' r = Num x \<and> 0 \<le> x"
    using assms by (rule sales_shipping_numbers)
  have 2: "value_of (columns df) ''Shipping'' (rows ?c ! i)
             = to_numeric (replace_free (value_of (columns df) ''Shipping'' (rows ?d ! i)))
         \<and> value_of (columns df) ''Shipping'' (rows (sales_fill ?c) ! i)
             = (if value_of (columns df) ''Shipping'' (rows ?c ! i) = Null
                then (case median (column_values ?c ''Shipping'') of
                        None \<Rightarrow> Null | Some m \<Rightarrow> Num m)
                else value_of (columns df) ''Shipping'' (rows ?c ! i))"
    if wf: "well_formed df" and i: "i < length (rows ?d)" for i
  proof -
    have wd: "well_formed ?d" using wf by (rule well_formed_remove_duplicate_records)
    have wc: "well_formed ?c" using wd by (rule well_formed_sales_coerce)
    have sd: "''Shipping'' \<in> set (columns ?d)" and sc: "''Shipping'' \<in> set (columns ?c)"
      using sh by simp_all
    have ic: "i < length (rows ?c)" using i by simp
    have a: "value_of (columns df) ''Shipping'' (rows ?c ! i)
        = to_numeric (replace_free (value_of (columns df) ''Shipping'' (rows ?d ! i)))"
      using sales_coerce_shipping [OF wd sd i] by simp
    have b: "value_of (columns df) ''Shipping'' (rows (sales_fill ?c) ! i)
        = fill_with (median (column_values ?c ''Shipping''))
            (value_of (columns df) ''Shipping'' (rows ?c ! i))"
      using sales_fill_shipping [OF wc sc ic] by simp
    have c: "fill_with (median (column_values ?c ''Shipping''))
            (value_of (columns df) ''Shipping'' (rows ?c ! i))
        = (if value_of (columns df) ''Shipping'' (rows ?c ! i) = Null
           then (case median (column_values ?c ''Shipping'') of
                   None \<Rightarrow> Null | Some m \<Rightarrow> Num m)
           else value_of (columns df) ''Shipping'' (rows ?c ! i))"
      by (rule fill_with_cases)
    from b c have bc: "value_of (columns df) ''Shipping'' (rows (sales_fill ?c) ! i)
        = (if value_of (columns df) ''Shipping'' (rows ?c ! i) = Null
           then (case median (column_values ?c ''Shipping'') of
                   None \<Rightarrow> Null | Some m \<Rightarrow> Num m)
           else value_of (columns df) ''Shipping'' (rows ?c ! i))"
      by (rule trans)
    from a bc show ?thesis by (rule conjI)
  qed
  have 3: "length (numbers_of (column_values ?c ''Shipping''))
             \<le> 2 * length (filter (\<lambda>x. x \<le> m) (numbers_of (column_values ?c ''Shipping'')))
         \<and> length (numbers_of (column_values ?c ''Shipping''))
             \<le> 2 * length (filter (\<lambda>x. m \<le> x) (numbers_of (column_values ?c ''Shipping'')))"
    if "median (column_values ?c ''Shipping'') = Some m" for m
    using that by (rule median_is_median)
  have 4: "\<forall>r \<in> set (rows (sales_before_outliers df)).
             num_ge 0 (value_of (columns df) ''Shipping'' r)"
  proof
    fix r assume r: "r \<in> set (rows (sales_before_outliers df))"
    let ?x = "sales_format (sales_drop_critical (sales_fill ?c))"
    have "''Shipping'' \<in> set (columns ?x)" using sh by simp
    moreover have "r \<in> set (rows (sales_nonneg ?x))"
      using r by (simp only: sales_before_outliers_def)
    ultimately have "num_ge 0 (value_of (columns ?x) ''Shipping'' r)"
      by (rule sales_nonneg_removes)
    then show "num_ge 0 (value_of (columns df) ''Shipping'' r)" by simp
  qed
  have 5: "set (column_values out ''Shipping'')
        \<subseteq> set (column_values (sales_fill ?c) ''Shipping'')"
  proof -
    let ?f = "sales_fill ?c"
    let ?b = "sales_before_outliers df"
    have "set (column_values out ''Shipping'') \<subseteq> set (column_values (sales_outliers ?b) ''Shipping'')"
      using clean_sales_data_values [OF assms(1) sh] by simp
    also have "\<dots> \<subseteq> set (column_values ?b ''Shipping'')"
      by (rule subseq_set) (rule subseq_sales_outliers)
    also have "\<dots> \<subseteq> set (column_values (sales_format (sales_drop_critical ?f)) ''Shipping'')"
      unfolding sales_before_outliers_def by (rule subseq_set) (rule subseq_sales_nonneg)
    also have "column_values (sales_format (sales_drop_critical ?f)) ''Shipping''
        = column_values (sales_drop_critical ?f) ''Shipping''"
      by (rule column_values_sales_format) (simp_all add: sh)
    also have "set (column_values (sales_drop_critical ?f) ''Shipping'')
        \<subseteq> set (column_values ?f ''Shipping'')"
      by (rule subseq_set) (rule subseq_sales_drop_critical)
    finally show ?thesis .
  qed
  from 2 have rowwise: "well_formed df \<longrightarrow>
         (\<forall>i < length (rows ?d).
            value_of (columns df) ''Shipping'' (rows ?c ! i)
              = to_numeric (replace_free (value_of (columns df) ''Shipping'' (rows ?d ! i)))
          \<and> value_of (columns df) ''Shipping'' (rows (sales_fill ?c) ! i)
              = (if value_of (columns df) ''Shipping'' (rows ?c ! i) = Null
                 then (case median (column_values ?c ''Shipping'') of
                         None \<Rightarrow> Null | Some m \<Rightarrow> Num m)
                 else value_of (columns df) ''Shipping'' (rows ?c ! i)))"
    by blast
  from 3 have halves: "\<forall>m. median (column_values ?c ''Shipping'') = Some m \<longrightarrow>
           length (numbers_of (column_values ?c ''Shipping''))
             \<le> 2 * length (filter (\<lambda>x. x \<le> m) (numbers_of (column_values ?c ''Shipping'')))
         \<and> length (numbers_of (column_values ?c ''Shipping''))
             \<le> 2 * length (filter (\<lambda>x. m \<le> x) (numbers_of (column_values ?c ''Shipping'')))"
    by blast
  show ?thesis
    apply (rule conjI, rule 1)
    apply (rule conjI, rule rowwise)
    apply (rule conjI, rule halves)
    apply (rule conjI, rule 4)
    apply (rule 5)
    done
qed

theorem sales_shipping_filled_nonneg_witness:
  "clean_sales_data
       \<lparr>columns = [''TransactionID'', ''SaleAmount'', ''Shipping''],
      rows = [[Num 1, Str ''10'', Str ''4''], [Num 2, Str ''11'', Null],
              [Num 3, Str ''12'', Str ''free''], [Num 4, Str ''11'', Str ''2''],
              [Num 5, Str ''10'', Str ''10''], [Num 6, Str ''11'', Str ''-1''],
              [Num 7, Str ''11'', Str ''7'']]\<rparr>
   = Inr \<lparr>columns = [''TransactionID'', ''SaleAmount'', ''Shipping''],
          rows = [[Num 1, Num 10, Num 4], [Num 2, Num 11, Num 3], [Num 3, Num 12, Num 0],
                  [Num 4, Num 11, Num 2], [Num 5, Num 10, Num 10],
                  [Num 7, Num 11, Num 7]]\<rparr>
   \<and> ''Shipping'' \<in> set [''TransactionID'', ''SaleAmount'', ''Shipping'']
   \<and> well_formed
       \<lparr>columns = [''TransactionID'', ''SaleAmount'', ''Shipping''],
      rows = [[Num 1, Str ''10'', Str ''4''], [Num 2, Str ''11'', Null],
              [Num 3, Str ''12'', Str ''free''], [Num 4, Str ''11'', Str ''2''],
              [Num 5, Str ''10'', Str ''10''], [Num 6, Str ''11'', Str ''-1''],
              [Num 7, Str ''11'', Str ''7'']]\<rparr>
   \<and> median (column_values (sales_coerce (remove_duplicate_records
       \<lparr>columns = [''TransactionID'', ''SaleAmount'', ''Shipping''],
      rows = [[Num 1, Str ''10'', Str ''4''], [Num 2, Str ''11'', Null],
              [Num 3, Str ''12'', Str ''free''], [Num 4, Str ''11'', Str ''2''],
              [Num 5, Str ''10'', Str ''10''], [Num 6, Str ''11'', Str ''-1''],
              [Num 7, Str ''11'', Str ''7'']]\<rparr>)) ''Shipping'') = Some 3
   \<and> value_of [''TransactionID'', ''SaleAmount'', ''Shipping''] ''Shipping''
        (rows (sales_coerce (remove_duplicate_records
       \<lparr>columns = [''TransactionID'', ''SaleAmount'', ''Shipping''],
      rows = [[Num 1, Str ''10'', Str ''4''], [Num 2, Str ''11'', Null],
              [Num 3, Str ''12'', Str ''free''], [Num 4, Str ''11'', Str ''2''],
              [Num 5, Str ''10'', Str ''10''], [Num 6, Str ''11'', Str ''-1''],
              [Num 7, Str ''11'', Str ''7'']]\<rparr>)) ! 1) = Null
   \<and> value_of [''TransactionID'', ''SaleAmount'', ''Shipping''] ''Shipping''
        (rows (sales_fill (sales_coerce (remove_duplicate_records
       \<lparr>columns = [''TransactionID'', ''SaleAmount'', ''Shipping''],
      rows = [[Num 1, Str ''10'', Str ''4''], [Num 2, Str ''11'', Null],
              [Num 3, Str ''12'', Str ''free''], [Num 4, Str ''11'', Str ''2''],
              [Num 5, Str ''10'', Str ''10''], [Num 6, Str ''11'', Str ''-1''],
              [Num 7, Str ''11'', Str ''7'']]\<rparr>))) ! 1) = Num 3
   \<and> value_of [''TransactionID'', ''SaleAmount'', ''Shipping''] ''Shipping''
        (rows (sales_coerce (remove_duplicate_records
       \<lparr>columns = [''TransactionID'', ''SaleAmount'', ''Shipping''],
      rows = [[Num 1, Str ''10'', Str ''4''], [Num 2, Str ''11'', Null],
              [Num 3, Str ''12'', Str ''free''], [Num 4, Str ''11'', Str ''2''],
              [Num 5, Str ''10'', Str ''10''], [Num 6, Str ''11'', Str ''-1''],
              [Num 7, Str ''11'', Str ''7'']]\<rparr>)) ! 2) = Num 0
   \<and> (\<exists>x. value_of [''TransactionID'', ''SaleAmount'', ''Shipping''] ''Shipping''
          [Num 2, Num 11, Num 3] = Num x \<and> 0 \<le> x)
   \<and> [Num 6, Num 11, Num (- 1)] \<notin> set (rows (sales_before_outliers
       \<lparr>columns = [''TransactionID'', ''SaleAmount'', ''Shipping''],
      rows = [[Num 1, Str ''10'', Str ''4''], [Num 2, Str ''11'', Null],
              [Num 3, Str ''12'', Str ''free''], [Num 4, Str ''11'', Str ''2''],
              [Num 5, Str ''10'', Str ''10''], [Num 6, Str ''11'', Str ''-1''],
              [Num 7, Str ''11'', Str ''7'']]\<rparr>))"
proof -
  have ev: "clean_sales_data
       \<lparr>columns = [''TransactionID'', ''SaleAmount'', ''Shipping''],
      rows = [[Num 1, Str ''10'', Str ''4''], [Num 2, Str ''11'', Null],
              [Num 3, Str ''12'', Str ''free''], [Num 4, Str ''11'', Str ''2''],
              [Num 5, Str ''10'', Str ''10''], [Num 6, Str ''11'', Str ''-1''],
              [Num 7, Str ''11'', Str ''7'']]\<rparr>
   = Inr \<lparr>columns = [''TransactionID'', ''SaleAmount'', ''Shipping''],
          rows = [[Num 1, Num 10, Num 4], [Num 2, Num 11, Num 3], [Num 3, Num 12, Num 0],
                  [Num 4, Num 11, Num 2], [Num 5, Num 10, Num 10],
                  [Num 7, Num 11, Num 7]]\<rparr>"
    by code_simp
  have wf: "well_formed
       \<lparr>columns = [''TransactionID'', ''SaleAmount'', ''Shipping''],
      rows = [[Num 1, Str ''10'', Str ''4''], [Num 2, Str ''11'', Null],
              [Num 3, Str ''12'', Str ''free''], [Num 4, Str ''11'', Str ''2''],
              [Num 5, Str ''10'', Str ''10''], [Num 6, Str ''11'', Str ''-1''],
              [Num 7, Str ''11'', Str ''7'']]\<rparr>"
    by (simp add: well_formed_def)
  have sh: "''Shipping'' \<in> set (columns
       \<lparr>columns = [''TransactionID'', ''SaleAmount'', ''Shipping''],
          rows = [[Num 1, Num 10, Num 4], [Num 2, Num 11, Num 3], [Num 3, Num 12, Num 0],
                  [Num 4, Num 11, Num 2], [Num 5, Num 10, Num 10],
                  [Num 7, Num 11, Num 7]]\<rparr>)"
    by simp
  have med: "median (column_values (sales_coerce (remove_duplicate_records
       \<lparr>columns = [''TransactionID'', ''SaleAmount'', ''Shipping''],
      rows = [[Num 1, Str ''10'', Str ''4''], [Num 2, Str ''11'', Null],
              [Num 3, Str ''12'', Str ''free''], [Num 4, Str ''11'', Str ''2''],
              [Num 5, Str ''10'', Str ''10''], [Num 6, Str ''11'', Str ''-1''],
              [Num 7, Str ''11'', Str ''7'']]\<rparr>)) ''Shipping'') = Some 3"
    by code_simp
  have c1: "value_of [''TransactionID'', ''SaleAmount'', ''Shipping''] ''Shipping''
        (rows (sales_coerce (remove_duplicate_records
       \<lparr>columns = [''TransactionID'', ''SaleAmount'', ''Shipping''],
      rows = [[Num 1, Str ''10'', Str ''4''], [Num 2, Str ''11'', Null],
              [Num 3, Str ''12'', Str ''free''], [Num 4, Str ''11'', Str ''2''],
              [Num 5, Str ''10'', Str ''10''], [Num 6, Str ''11'', Str ''-1''],
              [Num 7, Str ''11'', Str ''7'']]\<rparr>)) ! 1) = Null"
    by code_simp
  have c2: "value_of [''TransactionID'', ''SaleAmount'', ''Shipping''] ''Shipping''
        (rows (sales_coerce (remove_duplicate_records
       \<lparr>columns = [''TransactionID'', ''SaleAmount'', ''Shipping''],
      rows = [[Num 1, Str ''10'', Str ''4''], [Num 2, Str ''11'', Null],
              [Num 3, Str ''12'', Str ''free''], [Num 4, Str ''11'', Str ''2''],
              [Num 5, Str ''10'', Str ''10''], [Num 6, Str ''11'', Str ''-1''],
              [Num 7, Str ''11'', Str ''7'']]\<rparr>)) ! 2) = Num 0"
    by code_simp
  have len: "(1::nat) < length (rows (remove_duplicate_records
       \<lparr>columns = [''TransactionID'', ''SaleAmount'', ''Shipping''],
      rows = [[Num 1, Str ''10'', Str ''4''], [Num 2, Str ''11'', Null],
              [Num 3, Str ''12'', Str ''free''], [Num 4, Str ''11'', Str ''2''],
              [Num 5, Str ''10'', Str ''10''], [Num 6, Str ''11'', Str ''-1''],
              [Num 7, Str ''11'', Str ''7'']]\<rparr>))"
    by code_simp
  note t = sales_shipping_filled_nonneg [OF ev sh]
  have f1: "value_of [''TransactionID'', ''SaleAmount'', ''Shipping''] ''Shipping''
        (rows (sales_fill (sales_coerce (remove_duplicate_records
       \<lparr>columns = [''TransactionID'', ''SaleAmount'', ''Shipping''],
      rows = [[Num 1, Str ''10'', Str ''4''], [Num 2, Str ''11'', Null],
              [Num 3, Str ''12'', Str ''free''], [Num 4, Str ''11'', Str ''2''],
              [Num 5, Str ''10'', Str ''10''], [Num 6, Str ''11'', Str ''-1''],
              [Num 7, Str ''11'', Str ''7'']]\<rparr>))) ! 1) = Num 3"
    using t [THEN conjunct2, THEN conjunct1, rule_format, OF wf len, THEN conjunct2] c1 med
    by simp
  have neg: "[Num 6, Num 11, Num (- 1)] \<notin> set (rows (sales_before_outliers
       \<lparr>columns = [''TransactionID'', ''SaleAmount'', ''Shipping''],
      rows = [[Num 1, Str ''10'', Str ''4''], [Num 2, Str ''11'', Null],
              [Num 3, Str ''12'', Str ''free''], [Num 4, Str ''11'', Str ''2''],
              [Num 5, Str ''10'', Str ''10''], [Num 6, Str ''11'', Str ''-1''],
              [Num 7, Str ''11'', Str ''7'']]\<rparr>))"
    using t [THEN conjunct2, THEN conjunct2, THEN conjunct2, THEN conjunct1, rule_format,
        of "[Num 6, Num 11, Num (- 1)]"]
    by (auto simp: value_of_def)
  show ?thesis using ev wf med c1 c2 f1 neg by (simp add: value_of_def)
qed

section \<open>Properties of the cleaning entry point\<close>

lemma log_lines_logger [simp]: "log_lines (logger l st) = log_lines st @ [l]"
  by (simp add: logger_def)

lemma prepared_logger [simp]: "prepared (logger l st) = prepared st"
  by (simp add: logger_def)

lemma prepared_save [simp]: "prepared (save_csv_file df f st) = (prepared st)(f \<mapsto> df)"
  by (simp add: save_csv_file_def)

lemma log_lines_save [simp]: "log_lines (save_csv_file df f st) = log_lines st"
  by (simp add: save_csv_file_def)














end
